theory Spec2Isabelle
  imports Main "HOL-Library.AList"
begin

section \<open>Text\<close>

text \<open>
  Python's \<open>str\<close> is modelled as \<open>string\<close>, a list of 8-bit characters read as the code
  points below 256. \<open>py_space\<close> lists the code points below 256 for which \<open>str.isspace\<close>
  holds; they are the ones \<open>str.strip()\<close> removes at both ends.
\<close>

definition py_space :: "char \<Rightarrow> bool" where
  "py_space c = (c \<in> set [CHR 0x09, CHR 0x0A, CHR 0x0B, CHR 0x0C, CHR 0x0D, CHR 0x1C,
     CHR 0x1D, CHR 0x1E, CHR 0x1F, CHR 0x20, CHR 0x85, CHR 0xA0])"

definition strip :: "string \<Rightarrow> string" where
  "strip t = rev (dropWhile py_space (rev (dropWhile py_space t)))"

definition startswith :: "string \<Rightarrow> string \<Rightarrow> bool" where
  "startswith t p = (take (length p) t = p)"

text \<open>\<open>a or b\<close> on optional strings: \<open>None\<close> and the empty string are falsy.\<close>

definition truthy :: "string option \<Rightarrow> bool" where
  "truthy x = (case x of None \<Rightarrow> False | Some t \<Rightarrow> t \<noteq> [])"

definition py_or :: "string option \<Rightarrow> string option \<Rightarrow> string option" where
  "py_or a b = (if truthy a then a else b)"

section \<open>The history directory\<close>

text \<open>
  A line of a session file, by what \<open>load_history\<close> makes of it: \<open>Blank\<close> is a line that
  \<open>strip()\<close> empties; \<open>Obj ts role content\<close> is a JSON object with its \<open>ts\<close>, \<open>role\<close> and
  \<open>content\<close> members when present (strings); \<open>Malformed e\<close> is a line on which \<open>json.loads\<close>
  or the reading of the record raises, with the exception's text.
\<close>

datatype log_line =
    Blank
  | Obj "string option" "string option" "string option"
  | Malformed string

text \<open>
  The directory \<open>HISTORY_DIR\<close>: its files by name, each with its lines. The list order is
  the order in which \<open>glob\<close> happens to enumerate the directory.
\<close>

type_synonym disk = "(string \<times> log_line list) list"

definition path_exists :: "string \<Rightarrow> disk \<Rightarrow> bool" where
  "path_exists p d = (map_of d p \<noteq> None)"

text \<open>\<open>open(p, "a").close()\<close>: creates the file when it is absent, keeps it otherwise.\<close>

definition touch :: "string \<Rightarrow> disk \<Rightarrow> disk" where
  "touch p d = (if path_exists p d then d else AList.update p [] d)"

text \<open>\<open>open(p, "a")\<close> followed by one \<open>write\<close> of a line.\<close>

definition append_line :: "string \<Rightarrow> log_line \<Rightarrow> disk \<Rightarrow> disk" where
  "append_line p l d =
     AList.update p ((case map_of d p of None \<Rightarrow> [] | Some ls \<Rightarrow> ls) @ [l]) d"

definition os_remove :: "string \<Rightarrow> disk \<Rightarrow> disk" where
  "os_remove p d = AList.delete p d"

subsection \<open>Session identifiers\<close>

definition is_digit :: "char \<Rightarrow> bool" where
  "is_digit c = (c \<in> set ''0123456789'')"

text \<open>\<open>glob("chat_*.jsonl")\<close> on a file name.\<close>

definition glob_match :: "string \<Rightarrow> bool" where
  "glob_match name =
     (11 \<le> length name \<and> take 5 name = ''chat_'' \<and> drop (length name - 6) name = ''.jsonl'')"

text \<open>
  \<open>SESSION_PATTERN.match(name)\<close> for \<open>^chat_(\d{3})\.jsonl$\<close>, giving group 1. The
  pattern's \<open>$\<close> also matches before a final newline.
\<close>

definition session_pattern :: "string \<Rightarrow> string option" where
  "session_pattern name =
     (if take 5 name = ''chat_'' \<and> length (take 3 (drop 5 name)) = 3
         \<and> list_all is_digit (take 3 (drop 5 name))
         \<and> (drop 8 name = ''.jsonl'' \<or> drop 8 name = ''.jsonl'' @ [CHR 0x0A])
      then Some (take 3 (drop 5 name)) else None)"

text \<open>\<open>str.split(sep)\<close> for a separator of one character.\<close>

fun split_char :: "char \<Rightarrow> string \<Rightarrow> string list" where
  "split_char c [] = [[]]"
| "split_char c (x # xs) =
     (if x = c then [] # split_char c xs
      else (case split_char c xs of [] \<Rightarrow> [[x]] | w # ws \<Rightarrow> (x # w) # ws))"

text \<open>\<open>int(t)\<close> on a string of decimal digits.\<close>

definition digit_val :: "char \<Rightarrow> nat" where
  "digit_val c = of_char c - 48"

definition py_int :: "string \<Rightarrow> nat" where
  "py_int t = foldl (\<lambda>a c. 10 * a + digit_val c) 0 t"

text \<open>
  The sort key \<open>int(s.split("_")[1])\<close>. Every identifier that reaches it is \<open>chat_\<close>
  followed by the digits of group 1, so the index 1 exists and \<open>int\<close> reads digits.
\<close>

definition session_ord :: "string \<Rightarrow> nat" where
  "session_ord sid = (case split_char (CHR ''_'') sid of a # b # _ \<Rightarrow> py_int b | _ \<Rightarrow> 0)"

definition list_session_ids :: "disk \<Rightarrow> string list" where
  "list_session_ids d =
     sort_key session_ord
       (List.map_filter (\<lambda>name. map_option (\<lambda>g. ''chat_'' @ g) (session_pattern name))
          (filter glob_match (map fst d)))"

text \<open>The decimal digits of a number, and the format \<open>{n:03d}\<close>.\<close>

definition digit_char :: "nat \<Rightarrow> char" where
  "digit_char k = ''0123456789'' ! (k mod 10)"

fun dec :: "nat \<Rightarrow> string" where
  "dec n = (if n < 10 then [digit_char n] else dec (n div 10) @ [digit_char n])"

declare dec.simps [simp del]

definition fmt03 :: "nat \<Rightarrow> string" where
  "fmt03 n = replicate (3 - length (dec n)) (CHR ''0'') @ dec n"

definition next_session_id :: "disk \<Rightarrow> string" where
  "next_session_id d =
     (let ids = list_session_ids d in
      if ids = [] then ''chat_001''
      else ''chat_'' @ fmt03 (session_ord (last ids) + 1))"

definition session_file :: "string \<Rightarrow> string" where
  "session_file session_id = session_id @ ''.jsonl''"

section \<open>The application state\<close>

text \<open>
  Widgets carry an identity (a number taken from \<open>fresh\<close>), since the source keeps
  references to them: \<open>typing_md\<close> is removed by reference, and \<open>tree_nodes\<close> maps a session
  to a node object.
\<close>

record pane =
  pane_id :: string
  pane_title :: string

record bubble =
  wid :: nat
  brole :: string
  btext :: string

record view =
  mounted :: bool
  bubbles :: "bubble list"

record tree_node =
  node_id :: nat
  node_label :: string
  node_data :: string

record app =
  panes :: "pane list"
  active :: "string option"
  views :: "(string \<times> view) list"
  tree :: "tree_node list"
  tree_nodes :: "(string \<times> nat) list"
  cursor :: "nat option"
  last_tree_sid :: "string option"
  syncing_ui :: bool
  input :: string
  files :: disk
  fresh :: nat

text \<open>
  \<open>panes\<close> is \<open>tabs.query(TabPane)\<close> in tab order, \<open>active\<close> is \<open>tabs.active\<close>, \<open>tree\<close> is
  \<open>tree.root.children\<close>, \<open>cursor\<close> the node the tree has selected, \<open>input\<close> the text of
  the \<open>#in\<close> text area and \<open>files\<close> the history directory.

  What the source cannot decide is a parameter: the completion service's answer to a
  prompt (\<open>Inr\<close> the output text, \<open>Inl\<close> the text of the exception), whether \<open>os.remove\<close>
  and \<open>Tree.select_node\<close> raise, whether the toolkit refuses a relabel, and the clock.
\<close>

text \<open>
  The toolkit's calls are taken to do what the source expects of them: \<open>add_pane\<close> (or
  the fallback \<open>mount\<close>) puts the pane last in the tabs, \<open>mount\<close> succeeds (also on a view
  that is not itself mounted, which \<open>_current_view\<close> can produce), \<open>node.remove()\<close> takes
  the node out of the tree, and writing to the history directory succeeds. The calls
  below are the ones whose failure the source handles or a property below depends on.
\<close>

record framework =
  completion :: "string \<Rightarrow> string + string"
  os_remove_raises :: "string \<Rightarrow> bool"
  select_node_raises :: "nat option \<Rightarrow> bool"
  relabel_raises :: bool
  utcnow :: string
  strftime_now :: string

subsection \<open>Statements that may raise\<close>

datatype 'a outcome = Returns 'a | Raises string

type_synonym 'a action = "app \<Rightarrow> 'a outcome \<times> app"

definition ret :: "'a \<Rightarrow> 'a action" where
  "ret x s = (Returns x, s)"

definition throw :: "string \<Rightarrow> 'a action" where
  "throw e s = (Raises e, s)"

definition modify :: "(app \<Rightarrow> app) \<Rightarrow> unit action" where
  "modify f s = (Returns (), f s)"

definition then_do :: "'a action \<Rightarrow> ('a \<Rightarrow> 'b action) \<Rightarrow> 'b action" where
  "then_do m f s = (case m s of (Returns x, s') \<Rightarrow> f x s' | (Raises e, s') \<Rightarrow> (Raises e, s'))"

fun block :: "unit action list \<Rightarrow> unit action" where
  "block [] = ret ()"
| "block (m # ms) = then_do m (\<lambda>_. block ms)"

text \<open>\<open>try: m finally: fin\<close>, for a \<open>finally\<close> clause that is an assignment.\<close>

definition try_finally :: "'a action \<Rightarrow> (app \<Rightarrow> app) \<Rightarrow> 'a action" where
  "try_finally m fin s = (case m s of (r, s') \<Rightarrow> (r, fin s'))"

text \<open>\<open>try: m except Exception as e: h e\<close>.\<close>

definition try_except :: "'a action \<Rightarrow> (string \<Rightarrow> 'a action) \<Rightarrow> 'a action" where
  "try_except m h s = (case m s of (Raises e, s') \<Rightarrow> h e s' | (Returns x, s') \<Rightarrow> (Returns x, s'))"

definition set_syncing :: "bool \<Rightarrow> app \<Rightarrow> app" where
  "set_syncing b s = s\<lparr>syncing_ui := b\<rparr>"

subsection \<open>Bubbles and persistence\<close>

definition get_pane :: "string \<Rightarrow> app \<Rightarrow> pane option" where
  "get_pane session_id s = find (\<lambda>p. pane_id p = session_id) (panes s)"

text \<open>
  \<open>_current_view\<close> returns the view registered for the session, creating and registering
  one when there is none (mounted only if the session has a pane). The view object is
  \<open>views[sid]\<close>, so the model returns the key.
\<close>

definition current_view :: "string option \<Rightarrow> string action" where
  "current_view session_id s =
     (case py_or session_id (active s) of
        None \<Rightarrow> throw ''No active session'' s
      | Some sid \<Rightarrow>
          (case map_of (views s) sid of
             None \<Rightarrow>
               ret sid (s\<lparr>views := AList.update sid
                                     \<lparr>mounted = (get_pane sid s \<noteq> None), bubbles = []\<rparr> (views s)\<rparr>)
           | Some v \<Rightarrow> ret sid s))"

definition mount_bubble :: "string \<Rightarrow> string \<Rightarrow> string \<Rightarrow> nat action" where
  "mount_bubble sid r c s =
     (Returns (fresh s),
      s\<lparr>views := AList.map_entry sid
                    (\<lambda>v. v\<lparr>bubbles := bubbles v @ [\<lparr>wid = fresh s, brole = r, btext = c\<rparr>]\<rparr>)
                    (views s),
        fresh := Suc (fresh s)\<rparr>)"

definition add_message :: "string \<Rightarrow> string \<Rightarrow> string option \<Rightarrow> nat action" where
  "add_message r c session_id = then_do (current_view session_id) (\<lambda>sid. mount_bubble sid r c)"

definition system_bubble :: "string \<Rightarrow> string \<Rightarrow> unit action" where
  "system_bubble session_id t = then_do (add_message ''system'' t (Some session_id)) (\<lambda>_. ret ())"

definition save_message :: "framework \<Rightarrow> string \<Rightarrow> string \<Rightarrow> string \<Rightarrow> unit action" where
  "save_message fw r c session_id =
     modify (\<lambda>s. s\<lparr>files := append_line (session_file session_id)
                               (Obj (Some (utcnow fw)) (Some r) (Some c)) (files s)\<rparr>)"

text \<open>The \<open>for line in f\<close> loop of \<open>load_history\<close>; a raise leaves the loop.\<close>

fun load_lines :: "string \<Rightarrow> log_line list \<Rightarrow> unit action" where
  "load_lines session_id [] = ret ()"
| "load_lines session_id (Blank # ls) = load_lines session_id ls"
| "load_lines session_id (Obj t r c # ls) =
     then_do (add_message (case r of None \<Rightarrow> ''assistant'' | Some x \<Rightarrow> x)
                          (case c of None \<Rightarrow> [] | Some x \<Rightarrow> x) (Some session_id))
       (\<lambda>_. load_lines session_id ls)"
| "load_lines session_id (Malformed e # ls) = throw e"

text \<open>The source's message has U+2019 where this text has an apostrophe.\<close>

definition load_failed_text :: "string \<Rightarrow> string \<Rightarrow> string" where
  "load_failed_text session_id e =
     ''_Couldn'' @ [CHR 0x27] @ ''t load history for '' @ session_id @ '': '' @ e @ ''_''"

definition load_history :: "string \<Rightarrow> unit action" where
  "load_history session_id s =
     (case map_of (files s) (session_file session_id) of
        None \<Rightarrow> ret () s
      | Some ls \<Rightarrow>
          try_except (load_lines session_id ls)
            (\<lambda>e. then_do (add_message ''system'' (load_failed_text session_id e) (Some session_id))
                    (\<lambda>_. ret ())) s)"

subsection \<open>Tabs and tree nodes\<close>

definition welcome_text :: string where
  "welcome_text = ''_New chat started. Press Ctrl+Enter to send._''"

definition create_tab_for_session ::
  "string \<Rightarrow> bool \<Rightarrow> bool \<Rightarrow> bool \<Rightarrow> string option \<Rightarrow> unit action" where
  "create_tab_for_session session_id switch load welcome title =
     block
      [modify (\<lambda>s. s\<lparr>panes := panes s @
          [\<lparr>pane_id = session_id,
            pane_title = (case py_or title (Some session_id) of Some t \<Rightarrow> t | None \<Rightarrow> session_id)\<rparr>]\<rparr>),
       modify (\<lambda>s. if switch then s\<lparr>active := Some session_id\<rparr> else s),
       modify (\<lambda>s. s\<lparr>views := AList.update session_id \<lparr>mounted = True, bubbles = []\<rparr> (views s)\<rparr>),
       (if load then load_history session_id
        else if welcome
          then then_do (add_message ''system'' welcome_text (Some session_id)) (\<lambda>_. ret ())
          else ret ())]"

definition add_tree_node_for_session :: "string \<Rightarrow> string \<Rightarrow> app \<Rightarrow> app" where
  "add_tree_node_for_session session_id label s =
     s\<lparr>tree := tree s @ [\<lparr>node_id = fresh s, node_label = label, node_data = session_id\<rparr>],
       tree_nodes := AList.update session_id (fresh s) (tree_nodes s),
       fresh := Suc (fresh s)\<rparr>"

definition tree_select_node :: "framework \<Rightarrow> nat option \<Rightarrow> unit action" where
  "tree_select_node fw n =
     (if select_node_raises fw n then throw ''select_node'' else modify (\<lambda>s. s\<lparr>cursor := n\<rparr>))"

definition select_tree_node :: "framework \<Rightarrow> string \<Rightarrow> unit action" where
  "select_tree_node fw session_id s =
     (case map_of (tree_nodes s) session_id of
        None \<Rightarrow> ret () s
      | Some n \<Rightarrow>
          block [tree_select_node fw (Some n),
                 modify (\<lambda>s. s\<lparr>last_tree_sid := Some session_id\<rparr>)] s)"

definition remove_tree_node :: "framework \<Rightarrow> string \<Rightarrow> unit action" where
  "remove_tree_node fw session_id =
     block
      [modify (\<lambda>s. case map_of (tree_nodes s) session_id of
                      None \<Rightarrow> s
                    | Some n \<Rightarrow> s\<lparr>tree_nodes := AList.delete session_id (tree_nodes s),
                                  tree := filter (\<lambda>nd. node_id nd \<noteq> n) (tree s)\<rparr>),
       (\<lambda>s. case tree s of
               c # _ \<Rightarrow>
                 block [modify (set_syncing True),
                        try_finally
                          (block [tree_select_node fw (Some (node_id c)),
                                  modify (\<lambda>s. s\<lparr>last_tree_sid :=
                                     py_or (Some (node_data c)) (Some (node_label c))\<rparr>)])
                          (set_syncing False)] s
             | [] \<Rightarrow>
                 block [modify (set_syncing True),
                        try_finally
                          (block [tree_select_node fw None,
                                  modify (\<lambda>s. s\<lparr>last_tree_sid := None\<rparr>)])
                          (set_syncing False)] s)]"

subsection \<open>Close and permanent delete\<close>

fun index_of :: "('a \<Rightarrow> bool) \<Rightarrow> 'a list \<Rightarrow> nat option" where
  "index_of P [] = None"
| "index_of P (x # xs) = (if P x then Some 0 else map_option Suc (index_of P xs))"

text \<open>
  \<open>tabs.remove_pane(session_id)\<close> takes the pane of that identifier out of the tabs. With
  no such pane it raises, and the fallback of the source finds no pane to remove either.
\<close>

fun remove_pane :: "string \<Rightarrow> pane list \<Rightarrow> pane list" where
  "remove_pane session_id [] = []"
| "remove_pane session_id (p # ps) =
     (if pane_id p = session_id then ps else p # remove_pane session_id ps)"

definition cant_close_text :: string where
  "cant_close_text =
     ''_Can'' @ [CHR 0x27] @ ''t close the last chat. Create a new one first (Ctrl+N)._''"

definition close_tab_only :: "framework \<Rightarrow> string \<Rightarrow> unit action" where
  "close_tab_only fw session_id s =
     (let ps = panes s in
      if length ps \<le> 1 then system_bubble session_id cant_close_text s
      else
        let idx = (case index_of (\<lambda>p. pane_id p = session_id) ps of Some i \<Rightarrow> i | None \<Rightarrow> 0);
            new_idx = (if idx < length ps - 1 then idx + 1 else idx - 1);
            new_active = pane_id (ps ! new_idx)
        in block
            [modify (\<lambda>s. s\<lparr>panes := remove_pane session_id (panes s)\<rparr>),
             modify (\<lambda>s. s\<lparr>views := AList.delete session_id (views s)\<rparr>),
             (\<lambda>s. case map pane_id (panes s) of
                     [] \<Rightarrow> ret () s
                   | r # rs \<Rightarrow>
                       (let active_id = (if new_active \<in> set (r # rs) then new_active else r) in
                        block [modify (\<lambda>s. s\<lparr>active := Some active_id\<rparr>),
                               modify (set_syncing True),
                               try_finally (select_tree_node fw active_id) (set_syncing False)]) s)]
            s)"

definition warn_delete_text :: "string \<Rightarrow> string" where
  "warn_delete_text name =
     ''_Warning: couldn'' @ [CHR 0x27] @ ''t delete **'' @ name @ ''**_''"

text \<open>
  The five statements with which \<open>action_new_tab\<close> creates a chat; the first branch of
  \<open>_permanently_delete_chat\<close> repeats them word for word.
\<close>

definition new_chat :: "framework \<Rightarrow> unit action" where
  "new_chat fw s =
     (let new_sid = next_session_id (files s) in
      block [modify (\<lambda>s. s\<lparr>files := touch (session_file new_sid) (files s)\<rparr>),
             create_tab_for_session new_sid True False True None,
             modify (add_tree_node_for_session new_sid new_sid),
             modify (set_syncing True),
             try_finally (select_tree_node fw new_sid) (set_syncing False)] s)"

definition permanently_delete_chat :: "framework \<Rightarrow> string \<Rightarrow> unit action" where
  "permanently_delete_chat fw session_id =
     block
      [(\<lambda>s. if length (panes s) \<le> 1 then new_chat fw s else ret () s),
       close_tab_only fw session_id,
       (\<lambda>s. let path = session_file session_id in
             if path_exists path (files s) then
               (if os_remove_raises fw path then
                  (case active s of
                     None \<Rightarrow> ret () s
                   | Some a \<Rightarrow> if a \<noteq> [] then system_bubble a (warn_delete_text path) s
                               else ret () s)
                else modify (\<lambda>s. s\<lparr>files := os_remove path (files s)\<rparr>) s)
             else ret () s),
       remove_tree_node fw session_id]"

subsection \<open>Tab actions\<close>

definition action_new_tab :: "framework \<Rightarrow> unit action" where
  "action_new_tab fw = new_chat fw"

definition action_close_tab :: "framework \<Rightarrow> unit action" where
  "action_close_tab fw s =
     (case active s of
        None \<Rightarrow> ret () s
      | Some sid \<Rightarrow> if sid \<noteq> [] then permanently_delete_chat fw sid s else ret () s)"

fun retitle :: "string \<Rightarrow> string \<Rightarrow> pane list \<Rightarrow> pane list" where
  "retitle session_id t [] = []"
| "retitle session_id t (p # ps) =
     (if pane_id p = session_id then p\<lparr>pane_title := t\<rparr> # ps else p # retitle session_id t ps)"

definition set_pane_title :: "framework \<Rightarrow> string \<Rightarrow> string \<Rightarrow> unit action" where
  "set_pane_title fw session_id t =
     (if relabel_raises fw then throw ''relabel''
      else modify (\<lambda>s. s\<lparr>panes := retitle session_id t (panes s)\<rparr>))"

definition set_label :: "framework \<Rightarrow> nat \<Rightarrow> string \<Rightarrow> unit action" where
  "set_label fw n t =
     (if relabel_raises fw then throw ''relabel''
      else modify (\<lambda>s. s\<lparr>tree := map (\<lambda>nd. if node_id nd = n then nd\<lparr>node_label := t\<rparr> else nd)
                                      (tree s)\<rparr>))"

definition rename_text :: "string \<Rightarrow> string" where
  "rename_text new_title = ''_Rename not supported. Suggested name: **'' @ new_title @ ''**_''"

definition action_rename_tab :: "framework \<Rightarrow> unit action" where
  "action_rename_tab fw s =
     (case active s of
        None \<Rightarrow> ret () s
      | Some sid \<Rightarrow>
          if sid = [] then ret () s
          else
            let raw = strip (input s);
                new_title = (if raw \<noteq> [] then raw else ''Chat '' @ strftime_now fw)
            in block
                [modify (\<lambda>s. if raw \<noteq> [] then s\<lparr>input := []\<rparr> else s),
                 (\<lambda>s. case get_pane sid s of
                         None \<Rightarrow> ret () s
                       | Some p \<Rightarrow>
                           try_except
                             (block
                               [set_pane_title fw sid new_title,
                                (\<lambda>s. case map_of (tree_nodes s) sid of
                                        None \<Rightarrow> ret () s
                                      | Some n \<Rightarrow> set_label fw n new_title s)])
                             (\<lambda>e. system_bubble sid (rename_text new_title)) s)]
                s)"

subsection \<open>The tree's selection handler\<close>

record node_event =
  ev_is_root :: bool
  ev_data :: "string option"

definition on_tree_node_selected :: "node_event \<Rightarrow> unit action" where
  "on_tree_node_selected ev s =
     (if ev_is_root ev \<or> syncing_ui s then ret () s
      else
        let sid = strip (case py_or (ev_data ev) (Some []) of Some t \<Rightarrow> t | None \<Rightarrow> []) in
        if sid = [] then ret () s
        else
          block
           [modify (\<lambda>s. s\<lparr>last_tree_sid := Some sid\<rparr>),
            (\<lambda>s. if active s = Some sid then ret () s
                  else if get_pane sid s = None
                    then create_tab_for_session sid True True False None s
                    else modify (\<lambda>s. s\<lparr>active := Some sid\<rparr>) s)]
           s)"

subsection \<open>Start\<close>

definition startup :: "disk \<Rightarrow> app" where
  "startup d =
     \<lparr>panes = [], active = None, views = [], tree = [], tree_nodes = [], cursor = None,
      last_tree_sid = None, syncing_ui = False, input = [], files = d, fresh = 0\<rparr>"

fun mount_sessions :: "string list \<Rightarrow> unit action" where
  "mount_sessions [] = ret ()"
| "mount_sessions (sid # rest) =
     block [create_tab_for_session sid False True False None,
            modify (add_tree_node_for_session sid sid),
            mount_sessions rest]"

definition on_mount :: "framework \<Rightarrow> unit action" where
  "on_mount fw =
     block
      [modify (\<lambda>s. s\<lparr>views := [], tree_nodes := []\<rparr>),
       (\<lambda>s. let existing = list_session_ids (files s) in
             block
              [modify (set_syncing True),
               try_finally
                 (if existing \<noteq> [] then
                    block [mount_sessions existing,
                           modify (\<lambda>s. s\<lparr>active := Some (last existing)\<rparr>),
                           select_tree_node fw (last existing)]
                  else
                    (\<lambda>s. let sid = next_session_id (files s) in
                          block [modify (\<lambda>s. s\<lparr>files := touch (session_file sid) (files s)\<rparr>),
                                 create_tab_for_session sid True False True None,
                                 modify (add_tree_node_for_session sid sid),
                                 select_tree_node fw sid] s))
                 (set_syncing False)] s)]"

subsection \<open>Send\<close>

text \<open>
  \<open>model_response\<close> awaits the completion request. The model cuts it at the await:
  \<open>model_response_begin\<close> runs up to the dispatch and returns the request in flight (the
  locals that survive the await), \<open>model_response_complete\<close> runs from the answer on.
  Other events may run between the two.
\<close>

record request =
  req_sid :: string
  req_prompt :: string
  req_typing :: nat

text \<open>The source's text has U+2026 where this one has three dots.\<close>

definition thinking_text :: string where
  "thinking_text = ''_Thinking..._''"

definition clear_input :: "app \<Rightarrow> app" where
  "clear_input s = s\<lparr>input := []\<rparr>"

text \<open>The \<open>/rename\<close> branch of \<open>model_response\<close>.\<close>

definition rename_command :: "framework \<Rightarrow> string \<Rightarrow> string \<Rightarrow> unit action" where
  "rename_command fw sid prompt_input =
     (let new_title = strip (drop (length ''/rename '') prompt_input) in
      block
       [modify clear_input,
        (\<lambda>s. case get_pane sid s of
                None \<Rightarrow> ret () s
              | Some p \<Rightarrow>
                  try_except
                    (block
                      [set_pane_title fw sid (if new_title \<noteq> [] then new_title else pane_title p),
                       (\<lambda>s. case map_of (tree_nodes s) sid of
                               None \<Rightarrow> ret () s
                             | Some n \<Rightarrow> if new_title \<noteq> [] then set_label fw n new_title s
                                         else ret () s)])
                    (\<lambda>e. system_bubble sid (rename_text new_title)) s)])"

definition model_response_begin :: "framework \<Rightarrow> request option action" where
  "model_response_begin fw s =
     (case active s of
        None \<Rightarrow> ret None s
      | Some sid \<Rightarrow>
          if sid = [] then ret None s
          else
            let prompt_input = strip (input s) in
            if prompt_input = [] then ret None s
            else if startswith prompt_input ''/rename '' then
              then_do (rename_command fw sid prompt_input) (\<lambda>_. ret None) s
            else if prompt_input = ''/new'' then
              then_do (block [modify clear_input, action_new_tab fw]) (\<lambda>_. ret None) s
            else if prompt_input = ''/close'' then
              then_do (block [modify clear_input, action_close_tab fw]) (\<lambda>_. ret None) s
            else if prompt_input = ''/delete'' then
              then_do (block [modify clear_input, permanently_delete_chat fw sid]) (\<lambda>_. ret None) s
            else
              then_do
                (block [then_do (add_message ''user'' prompt_input (Some sid)) (\<lambda>_. ret ()),
                        save_message fw ''user'' prompt_input sid,
                        modify clear_input])
                (\<lambda>_. then_do (add_message ''status'' thinking_text (Some sid))
                        (\<lambda>w. ret (Some \<lparr>req_sid = sid, req_prompt = prompt_input, req_typing = w\<rparr>)))
                s)"

text \<open>\<open>typing_md.remove()\<close>: the widget leaves the view that holds it.\<close>

definition remove_widget :: "nat \<Rightarrow> app \<Rightarrow> app" where
  "remove_widget w s =
     s\<lparr>views := map (\<lambda>(k, v). (k, v\<lparr>bubbles := filter (\<lambda>b. wid b \<noteq> w) (bubbles v)\<rparr>)) (views s)\<rparr>"

definition error_text :: "string \<Rightarrow> string" where
  "error_text e = ''**Error:** '' @ [CHR 0x60] @ e @ [CHR 0x60]"

definition model_response_complete :: "framework \<Rightarrow> request \<Rightarrow> unit action" where
  "model_response_complete fw rq =
     (let output = (case completion fw (req_prompt rq) of Inr t \<Rightarrow> t | Inl e \<Rightarrow> error_text e) in
      block [modify (remove_widget (req_typing rq)),
             then_do (add_message ''assistant'' output (Some (req_sid rq))) (\<lambda>_. ret ()),
             save_message fw ''assistant'' output (req_sid rq)])"

definition model_response :: "framework \<Rightarrow> unit action" where
  "model_response fw =
     then_do (model_response_begin fw)
       (\<lambda>r. case r of None \<Rightarrow> ret () | Some rq \<Rightarrow> model_response_complete fw rq)"

subsection \<open>Sequences of tab operations\<close>

datatype user_op = New_session | Close_tab string | Delete_session string

definition run_op :: "framework \<Rightarrow> user_op \<Rightarrow> unit action" where
  "run_op fw op =
     (case op of
        New_session \<Rightarrow> action_new_tab fw
      | Close_tab sid \<Rightarrow> close_tab_only fw sid
      | Delete_session sid \<Rightarrow> permanently_delete_chat fw sid)"

text \<open>
  The state after a sequence of operations, each under its own behaviour of the
  environment; an operation that raises leaves the state it had reached.
\<close>

fun run_ops :: "(framework \<times> user_op) list \<Rightarrow> app \<Rightarrow> app" where
  "run_ops [] s = s"
| "run_ops ((fw, op) # rest) s = run_ops rest (snd (run_op fw op s))"

section \<open>Observations and sample environments\<close>

text \<open>The turns a session's registered view shows, as role and text, in order.\<close>

definition shown :: "string \<Rightarrow> app \<Rightarrow> (string \<times> string) list" where
  "shown sid s =
     (case map_of (views s) sid of
        None \<Rightarrow> []
      | Some v \<Rightarrow> map (\<lambda>b. (brole b, btext b)) (bubbles v))"

text \<open>An environment in which nothing fails, used to run the model on concrete inputs.\<close>

definition fw_ok :: framework where
  "fw_ok = \<lparr>completion = (\<lambda>p. Inr ''hello''), os_remove_raises = (\<lambda>_. False),
     select_node_raises = (\<lambda>_. False), relabel_raises = False, utcnow = ''T'',
     strftime_now = ''Nov 03, 10:00''\<rparr>"

text \<open>An invariant of an action: it holds after the action whenever it held before.\<close>

definition preserves :: "(app \<Rightarrow> bool) \<Rightarrow> 'a action \<Rightarrow> bool" where
  "preserves P m = (\<forall>s. P s \<longrightarrow> P (snd (m s)))"

text \<open>
  A triple for actions that may raise: from a state satisfying \<open>P\<close>, the action either
  returns \<open>x\<close> in a state satisfying \<open>Q x\<close> or raises in a state satisfying \<open>E\<close>.
\<close>

definition triple :: "(app \<Rightarrow> bool) \<Rightarrow> 'a action \<Rightarrow> ('a \<Rightarrow> app \<Rightarrow> bool) \<Rightarrow> (app \<Rightarrow> bool) \<Rightarrow> bool" where
  "triple P m Q E =
     (\<forall>s. P s \<longrightarrow> (case m s of (Returns x, s') \<Rightarrow> Q x s' | (Raises e, s') \<Rightarrow> E s'))"


text \<open>The state \<open>on_mount\<close> leaves on an empty history directory.\<close>

definition one_chat :: app where
  "one_chat =
     \<lparr>panes = [\<lparr>pane_id = ''chat_001'', pane_title = ''chat_001''\<rparr>],
      active = Some ''chat_001'',
      views = [(''chat_001'', \<lparr>mounted = True,
                 bubbles = [\<lparr>wid = 0, brole = ''system'', btext = welcome_text\<rparr>]\<rparr>)],
      tree = [\<lparr>node_id = 1, node_label = ''chat_001'', node_data = ''chat_001''\<rparr>],
      tree_nodes = [(''chat_001'', 1)], cursor = Some 1,
      last_tree_sid = Some ''chat_001'', syncing_ui = False, input = [],
      files = [(''chat_001.jsonl'', [])], fresh = 2\<rparr>"



text \<open>Every bubble of a registered view was made before the counter's present value.\<close>

definition fresh_ok :: "app \<Rightarrow> bool" where
  "fresh_ok s = list_all (\<lambda>(k, v). list_all (\<lambda>b. wid b < fresh s) (bubbles v)) (views s)"

text \<open>The bubbles of a session's registered view.\<close>

definition bubbles_of :: "string \<Rightarrow> app \<Rightarrow> bubble list" where
  "bubbles_of sid s = (case map_of (views s) sid of None \<Rightarrow> [] | Some v \<Rightarrow> bubbles v)"




text \<open>
  The turns of the well-formed records of a log, with the defaults of \<open>rec.get\<close>; blank
  lines give none.
\<close>

fun turns :: "log_line list \<Rightarrow> (string \<times> string) list" where
  "turns [] = []"
| "turns (Obj t r c # ls) =
     (case r of None \<Rightarrow> ''assistant'' | Some x \<Rightarrow> x, case c of None \<Rightarrow> [] | Some x \<Rightarrow> x) # turns ls"
| "turns (l # ls) = turns ls"

definition well_formed :: "log_line \<Rightarrow> bool" where
  "well_formed l = (case l of Malformed e \<Rightarrow> False | _ \<Rightarrow> True)"


text \<open>Two open chats, and a chat with one exchange whose tab was closed.\<close>

definition two_chats :: app where
  "two_chats = snd (action_new_tab fw_ok one_chat)"

definition closed_chat :: app where
  "closed_chat =
     run_ops [(fw_ok, New_session), (fw_ok, Close_tab ''chat_001'')]
       (snd (model_response fw_ok (one_chat\<lparr>input := ''hi''\<rparr>)))"

section \<open>Properties\<close>

subsection \<open>Rules for actions\<close>

lemmas action_defs = ret_def throw_def modify_def then_do_def try_finally_def try_except_def

lemma preservesD: "preserves P m \<Longrightarrow> P s \<Longrightarrow> P (snd (m s))"
  by (simp add: preserves_def)

lemma preserves_ret [intro!, simp]: "preserves P (ret x)"
  by (simp add: preserves_def ret_def)

lemma preserves_throw [intro!, simp]: "preserves P (throw e)"
  by (simp add: preserves_def throw_def)

lemma preserves_modify [intro!]: "(\<And>s. P s \<Longrightarrow> P (g s)) \<Longrightarrow> preserves P (modify g)"
  by (simp add: preserves_def modify_def)

lemma preserves_then_do [intro!]:
  "preserves P m \<Longrightarrow> (\<And>x. preserves P (k x)) \<Longrightarrow> preserves P (then_do m k)"
  by (auto simp: preserves_def then_do_def split: prod.splits outcome.splits)

lemma preserves_block_Nil [intro!, simp]: "preserves P (block [])"
  by simp

lemma preserves_block_Cons [intro!]:
  "preserves P m \<Longrightarrow> preserves P (block ms) \<Longrightarrow> preserves P (block (m # ms))"
  by (simp add: preserves_then_do)

lemma preserves_try_finally [intro!]:
  "preserves P m \<Longrightarrow> (\<And>s. P s \<Longrightarrow> P (fin s)) \<Longrightarrow> preserves P (try_finally m fin)"
  by (auto simp: preserves_def try_finally_def split: prod.splits)

lemma preserves_try_except [intro!]:
  "preserves P m \<Longrightarrow> (\<And>e. preserves P (h e)) \<Longrightarrow> preserves P (try_except m h)"
  by (auto simp: preserves_def try_except_def split: prod.splits outcome.splits)

lemma preserves_dep: "(\<And>t. preserves P (F t)) \<Longrightarrow> preserves P (\<lambda>s. F s s)"
  by (simp add: preserves_def)

subsection \<open>Bubbles\<close>

lemma add_message_Some:
  "sid \<noteq> [] \<Longrightarrow> add_message r c (Some sid) s =
     (Returns (fresh s),
      s\<lparr>views := AList.map_entry sid
                    (\<lambda>v. v\<lparr>bubbles := bubbles v @ [\<lparr>wid = fresh s, brole = r, btext = c\<rparr>]\<rparr>)
                    (case map_of (views s) sid of
                       None \<Rightarrow> AList.update sid
                                 \<lparr>mounted = (get_pane sid s \<noteq> None), bubbles = []\<rparr> (views s)
                     | Some v \<Rightarrow> views s),
        fresh := Suc (fresh s)\<rparr>)"
  by (simp add: add_message_def current_view_def mount_bubble_def py_or_def truthy_def
      action_defs get_pane_def split: option.splits)

lemma shown_add_message:
  "sid \<noteq> [] \<Longrightarrow> shown k (snd (add_message r c (Some sid) s)) =
     (if k = sid then shown sid s @ [(r, c)] else shown k s)"
  by (simp add: add_message_Some shown_def map_of_map_entry AList.update_conv'
      split: option.splits)

subsection \<open>Send\<close>

text \<open>
  C10. A send with an empty or whitespace-only input field, or with no active session,
  changes nothing: the state after it is the state before it (so no turn is displayed or
  persisted and the input field is untouched) and no request is dispatched.
\<close>

theorem send_noop:
  "strip (input s) = [] \<or> \<not> truthy (active s) \<Longrightarrow>
     model_response_begin fw s = (Returns None, s) \<and> model_response fw s = (Returns (), s)"
  by (auto simp: model_response_def model_response_begin_def truthy_def action_defs
      split: option.splits)

theorem send_noop_witness:
  "model_response_begin fw_ok ((startup [])\<lparr>active := Some ''chat_001'', input := ''  ''\<rparr>)
     = (Returns None, (startup [])\<lparr>active := Some ''chat_001'', input := ''  ''\<rparr>)
   \<and> model_response fw_ok (startup []) = (Returns (), startup [])"
  using send_noop [of "(startup [])\<lparr>active := Some ''chat_001'', input := ''  ''\<rparr>" fw_ok]
    send_noop [of "startup []" fw_ok]
  by (simp add: strip_def py_space_def startup_def truthy_def)

subsection \<open>Triples\<close>

lemma tripleI:
  "(\<And>s x s'. P s \<Longrightarrow> m s = (Returns x, s') \<Longrightarrow> Q x s') \<Longrightarrow>
   (\<And>s e s'. P s \<Longrightarrow> m s = (Raises e, s') \<Longrightarrow> E s') \<Longrightarrow> triple P m Q E"
  by (auto simp: triple_def split: prod.splits outcome.splits)

lemma triple_returns: "triple P m Q E \<Longrightarrow> P s \<Longrightarrow> m s = (Returns x, s') \<Longrightarrow> Q x s'"
  by (auto simp: triple_def)

lemma triple_raises: "triple P m Q E \<Longrightarrow> P s \<Longrightarrow> m s = (Raises e, s') \<Longrightarrow> E s'"
  by (auto simp: triple_def)

lemma triple_snd: "triple P m (\<lambda>_. Q) Q \<Longrightarrow> P s \<Longrightarrow> Q (snd (m s))"
  by (cases "m s"; cases "fst (m s)") (auto simp: triple_def)

lemma triple_weaken:
  assumes "triple P' m Q' E'" "\<And>s. P s \<Longrightarrow> P' s" "\<And>x s. Q' x s \<Longrightarrow> Q x s" "\<And>s. E' s \<Longrightarrow> E s"
  shows "triple P m Q E"
proof (rule tripleI)
  fix s x s' assume "P s" "m s = (Returns x, s')"
  then show "Q x s'" using assms(1,2,3) by (auto dest: triple_returns)
next
  fix s e s' assume "P s" "m s = (Raises e, s')"
  then show "E s'" using assms(1,2,4) by (auto dest: triple_raises)
qed

lemma triple_ret: "(\<And>s. P s \<Longrightarrow> Q x s) \<Longrightarrow> triple P (ret x) Q E"
  by (simp add: triple_def ret_def)

lemma triple_throw: "(\<And>s. P s \<Longrightarrow> E s) \<Longrightarrow> triple P (throw e) Q E"
  by (simp add: triple_def throw_def)

lemma triple_modify: "(\<And>s. P s \<Longrightarrow> Q () (g s)) \<Longrightarrow> triple P (modify g) Q E"
  by (simp add: triple_def modify_def)

lemma triple_then_do:
  assumes "triple P m R E" "\<And>x. triple (R x) (k x) Q E"
  shows "triple P (then_do m k) Q E"
proof (rule tripleI)
  fix s x s' assume P: "P s" and r: "then_do m k s = (Returns x, s')"
  obtain o1 s1 where m: "m s = (o1, s1)" by (cases "m s")
  show "Q x s'"
  proof (cases o1)
    case (Returns y)
    with m P assms(1) have "R y s1" by (auto dest: triple_returns)
    moreover from r m Returns have "k y s1 = (Returns x, s')" by (simp add: then_do_def)
    ultimately show ?thesis using assms(2) by (auto dest: triple_returns)
  next
    case (Raises e)
    with r m show ?thesis by (simp add: then_do_def)
  qed
next
  fix s e s' assume P: "P s" and r: "then_do m k s = (Raises e, s')"
  obtain o1 s1 where m: "m s = (o1, s1)" by (cases "m s")
  show "E s'"
  proof (cases o1)
    case (Returns y)
    with m P assms(1) have "R y s1" by (auto dest: triple_returns)
    moreover from r m Returns have "k y s1 = (Raises e, s')" by (simp add: then_do_def)
    ultimately show ?thesis using assms(2) by (auto dest: triple_raises)
  next
    case (Raises e')
    with r m have "m s = (Raises e', s')" by (simp add: then_do_def)
    with P assms(1) show ?thesis by (auto dest: triple_raises)
  qed
qed

lemma triple_block_Nil: "(\<And>s. P s \<Longrightarrow> Q () s) \<Longrightarrow> triple P (block []) Q E"
  by (simp add: triple_ret)

lemma triple_block_Cons:
  "triple P m (\<lambda>_. R) E \<Longrightarrow> triple R (block ms) Q E \<Longrightarrow> triple P (block (m # ms)) Q E"
  by (simp add: triple_then_do)

lemma triple_try_finally:
  "triple P m (\<lambda>x s. Q x (fin s)) (\<lambda>s. E (fin s)) \<Longrightarrow> triple P (try_finally m fin) Q E"
  by (auto simp: triple_def try_finally_def split: prod.splits outcome.splits)

lemma triple_try_except:
  assumes "triple P m Q R" "\<And>e. triple R (h e) Q E"
  shows "triple P (try_except m h) Q E"
proof (rule tripleI)
  fix s x s' assume P: "P s" and r: "try_except m h s = (Returns x, s')"
  obtain o1 s1 where m: "m s = (o1, s1)" by (cases "m s")
  show "Q x s'"
  proof (cases o1)
    case (Returns y)
    with r m have "m s = (Returns x, s')" by (simp add: try_except_def)
    with P assms(1) show ?thesis by (auto dest: triple_returns)
  next
    case (Raises e)
    with m P assms(1) have "R s1" by (auto dest: triple_raises)
    moreover from r m Raises have "h e s1 = (Returns x, s')" by (simp add: try_except_def)
    ultimately show ?thesis using assms(2) by (auto dest: triple_returns)
  qed
next
  fix s e s' assume P: "P s" and r: "try_except m h s = (Raises e, s')"
  obtain o1 s1 where m: "m s = (o1, s1)" by (cases "m s")
  show "E s'"
  proof (cases o1)
    case (Returns y)
    with r m show ?thesis by (simp add: try_except_def)
  next
    case (Raises e')
    with m P assms(1) have "R s1" by (auto dest: triple_raises)
    moreover from r m Raises have "h e' s1 = (Raises e, s')" by (simp add: try_except_def)
    ultimately show ?thesis using assms(2) by (auto dest: triple_raises)
  qed
qed

lemma triple_dep:
  "(\<And>t. triple (\<lambda>s. P s \<and> s = t) (F t) Q E) \<Longrightarrow> triple P (\<lambda>s. F s s) Q E"
  by (simp add: triple_def)

lemma triple_preserves: "preserves P m \<Longrightarrow> triple P m (\<lambda>_. P) P"
proof (rule tripleI)
  fix s x s' assume "preserves P m" "P s" "m s = (Returns x, s')"
  then show "P s'" by (auto dest: preservesD)
next
  fix s e s' assume "preserves P m" "P s" "m s = (Raises e, s')"
  then show "P s'" by (auto dest: preservesD)
qed

subsection \<open>What the bubble operations leave alone\<close>

lemma preserves_current_view:
  assumes "\<And>s v. P s \<Longrightarrow> P (s\<lparr>views := v\<rparr>)"
  shows "preserves P (current_view x)"
  using assms by (auto simp: preserves_def current_view_def action_defs split: option.splits)

lemma preserves_mount_bubble:
  assumes "\<And>s v. P s \<Longrightarrow> P (s\<lparr>views := v\<rparr>)" "\<And>s n. P s \<Longrightarrow> P (s\<lparr>fresh := n\<rparr>)"
  shows "preserves P (mount_bubble sid r c)"
  using assms by (simp add: preserves_def mount_bubble_def)

lemma preserves_add_message:
  assumes "\<And>s v. P s \<Longrightarrow> P (s\<lparr>views := v\<rparr>)" "\<And>s n. P s \<Longrightarrow> P (s\<lparr>fresh := n\<rparr>)"
  shows "preserves P (add_message r c x)"
  unfolding add_message_def
  by (intro preserves_then_do preserves_current_view preserves_mount_bubble assms)

lemma preserves_system_bubble:
  assumes "\<And>s v. P s \<Longrightarrow> P (s\<lparr>views := v\<rparr>)" "\<And>s n. P s \<Longrightarrow> P (s\<lparr>fresh := n\<rparr>)"
  shows "preserves P (system_bubble sid t)"
  unfolding system_bubble_def
  by (intro preserves_then_do preserves_add_message preserves_ret assms)

lemma preserves_load_lines:
  assumes "\<And>s v. P s \<Longrightarrow> P (s\<lparr>views := v\<rparr>)" "\<And>s n. P s \<Longrightarrow> P (s\<lparr>fresh := n\<rparr>)"
  shows "preserves P (load_lines sid ls)"
proof (induction sid ls rule: load_lines.induct)
  case (3 session_id t r c ls)
  then show ?case
    by (simp only: load_lines.simps) (intro preserves_then_do preserves_add_message assms)
qed simp_all

lemma preserves_load_history:
  assumes "\<And>s v. P s \<Longrightarrow> P (s\<lparr>views := v\<rparr>)" "\<And>s n. P s \<Longrightarrow> P (s\<lparr>fresh := n\<rparr>)"
  shows "preserves P (load_history sid)"
proof -
  have "preserves P (try_except (load_lines sid ls)
      (\<lambda>e. then_do (add_message ''system'' (load_failed_text sid e) (Some sid)) (\<lambda>_. ret ())))" for ls
    by (intro preserves_try_except preserves_then_do preserves_load_lines preserves_add_message
        preserves_ret assms)
  then show ?thesis
    by (auto simp: preserves_def load_history_def ret_def split: option.splits)
qed

lemma preserves_create_tab_for_session:
  assumes "\<And>s v. P s \<Longrightarrow> P (s\<lparr>views := v\<rparr>)" "\<And>s n. P s \<Longrightarrow> P (s\<lparr>fresh := n\<rparr>)"
    "\<And>s v. P s \<Longrightarrow> P (s\<lparr>panes := panes s @ [v]\<rparr>)" "\<And>s v. P s \<Longrightarrow> P (s\<lparr>active := v\<rparr>)"
  shows "preserves P (create_tab_for_session sid sw ld w t)"
  unfolding create_tab_for_session_def
  by (intro preserves_block_Cons preserves_block_Nil preserves_modify)
     (auto intro!: preserves_load_history preserves_then_do preserves_add_message assms)

lemma preserves_select_tree_node:
  assumes "\<And>s v. P s \<Longrightarrow> P (s\<lparr>cursor := v\<rparr>)" "\<And>s v. P s \<Longrightarrow> P (s\<lparr>last_tree_sid := v\<rparr>)"
  shows "preserves P (select_tree_node fw sid)"
  using assms
  by (auto simp: preserves_def select_tree_node_def tree_select_node_def action_defs
      split: option.splits)

subsection \<open>Computing with actions\<close>

lemma triple_from_snd: "(\<And>s. P s \<Longrightarrow> Q (snd (m s))) \<Longrightarrow> triple P m (\<lambda>_. Q) Q"
  by (rule tripleI) (metis snd_conv)+

lemma then_do_modify [simp]: "then_do (modify g) k s = k () (g s)"
  by (simp add: then_do_def modify_def)

lemma then_do_ret [simp]: "then_do (ret x) k s = k x s"
  by (simp add: then_do_def ret_def)

lemma then_do_throw [simp]: "then_do (throw e) k s = (Raises e, s)"
  by (simp add: then_do_def throw_def)

lemma then_do_right_ret [simp]: "then_do m ret = m"
  by (rule ext) (auto simp: then_do_def ret_def split: prod.splits outcome.splits)

lemma snd_try_finally [simp]: "snd (try_finally m fin s) = fin (snd (m s))"
  by (simp add: try_finally_def split: prod.splits)

subsection \<open>The selection flag\<close>

lemma next_session_id_nonempty [simp]: "next_session_id d \<noteq> []"
  by (simp add: next_session_id_def Let_def)



lemma remove_pane_nonempty: "2 \<le> length ps \<Longrightarrow> remove_pane sid ps \<noteq> []"
  by (cases ps; cases "tl ps") (auto split: if_splits)



lemma preserves_eqD: "preserves (\<lambda>t. f t = f s) m \<Longrightarrow> f (snd (m s)) = f s"
  by (drule preservesD [where s = s]) simp_all




lemma create_tab_for_session_syncing [simp]:
  "syncing_ui (snd (create_tab_for_session sid sw ld w t u)) = syncing_ui u"
  by (rule preserves_eqD) (rule preserves_create_tab_for_session; simp)


subsection \<open>Panes\<close>

lemma snd_then_do:
  "snd (then_do m k s) =
     (case fst (m s) of Returns x \<Rightarrow> snd (k x (snd (m s))) | Raises e \<Rightarrow> snd (m s))"
  by (cases "m s"; cases "fst (m s)") (auto simp: then_do_def)

lemma fst_then_do:
  "fst (then_do m k s) =
     (case fst (m s) of Returns x \<Rightarrow> fst (k x (snd (m s))) | Raises e \<Rightarrow> Raises e)"
  by (cases "m s"; cases "fst (m s)") (auto simp: then_do_def)

lemma snd_ret [simp]: "snd (ret x s) = s" and fst_ret [simp]: "fst (ret x s) = Returns x"
  by (simp_all add: ret_def)

lemma snd_throw [simp]: "snd (throw e s) = s" and fst_throw [simp]: "fst (throw e s) = Raises e"
  by (simp_all add: throw_def)

lemma snd_modify [simp]: "snd (modify g s) = g s" and fst_modify [simp]: "fst (modify g s) = Returns ()"
  by (simp_all add: modify_def)

lemma create_tab_for_session_panes [simp]:
  "panes (snd (create_tab_for_session sid sw ld w t u)) =
     panes u @ [\<lparr>pane_id = sid,
                 pane_title = (case py_or t (Some sid) of Some x \<Rightarrow> x | None \<Rightarrow> sid)\<rparr>]"
proof -
  have keep: "panes (snd (load_history sid v)) = panes v"
    "panes (snd (add_message r c x v)) = panes v" for v r c x
    by (rule preserves_eqD, rule preserves_load_history; simp)
       (rule preserves_eqD, rule preserves_add_message; simp)
  show ?thesis
    by (simp add: create_tab_for_session_def keep snd_then_do split: outcome.splits)
qed

lemma select_tree_node_panes [simp]: "panes (snd (select_tree_node fw sid u)) = panes u"
  by (rule preserves_eqD) (rule preserves_select_tree_node; simp)

lemma new_chat_panes:
  "panes (snd (new_chat fw s)) =
     panes s @ [\<lparr>pane_id = next_session_id (files s), pane_title = next_session_id (files s)\<rparr>]"
  by (simp add: new_chat_def Let_def create_tab_for_session_def add_message_Some set_syncing_def
      select_tree_node_def tree_select_node_def action_defs add_tree_node_for_session_def
      py_or_def truthy_def split: option.splits)

lemma system_bubble_panes [simp]: "panes (snd (system_bubble sid t u)) = panes u"
  by (rule preserves_eqD) (rule preserves_system_bubble; simp)

lemma close_tab_only_panes:
  "panes (snd (close_tab_only fw sid s)) =
     (if length (panes s) \<le> 1 then panes s else remove_pane sid (panes s))"
proof (cases "length (panes s) \<le> 1")
  case True
  then show ?thesis by (simp add: close_tab_only_def)
next
  case False
  then have "remove_pane sid (panes s) \<noteq> []" by (simp add: remove_pane_nonempty)
  with False show ?thesis
    by (simp add: close_tab_only_def Let_def set_syncing_def snd_then_do
        split: list.splits outcome.splits)
qed

lemma remove_tree_node_panes [simp]: "panes (snd (remove_tree_node fw sid s)) = panes s"
  by (simp add: remove_tree_node_def set_syncing_def tree_select_node_def action_defs
      split: list.splits option.splits)

lemma permanently_delete_chat_nonempty: "panes (snd (permanently_delete_chat fw sid s)) \<noteq> []"
proof -
  let ?ne = "\<lambda>s. panes s \<noteq> []"
  have A: "triple (\<lambda>_. True) (\<lambda>s. if length (panes s) \<le> 1 then new_chat fw s else ret () s)
             (\<lambda>_. ?ne) ?ne"
  proof (rule triple_from_snd)
    fix s show "panes (snd (if length (panes s) \<le> 1 then new_chat fw s else ret () s)) \<noteq> []"
      by (auto simp: new_chat_panes ret_def)
  qed
  have B: "triple ?ne (close_tab_only fw sid) (\<lambda>_. ?ne) ?ne"
    by (rule triple_from_snd) (auto simp: close_tab_only_panes remove_pane_nonempty)
  have C: "preserves ?ne (\<lambda>s. let path = session_file sid in
             if path_exists path (files s) then
               (if os_remove_raises fw path then
                  (case active s of
                     None \<Rightarrow> ret () s
                   | Some a \<Rightarrow> if a \<noteq> [] then system_bubble a (warn_delete_text path) s
                               else ret () s)
                else modify (\<lambda>s. s\<lparr>files := os_remove path (files s)\<rparr>) s)
             else ret () s)"
    by (auto simp: preserves_def Let_def ret_def modify_def split: option.splits)
  have D: "triple ?ne (remove_tree_node fw sid) (\<lambda>_. ?ne) ?ne"
    by (rule triple_from_snd) simp
  have "triple (\<lambda>_. True) (permanently_delete_chat fw sid) (\<lambda>_. ?ne) ?ne"
    unfolding permanently_delete_chat_def
    by (intro triple_block_Cons [OF A] triple_block_Cons [OF B]
        triple_block_Cons [OF triple_preserves [OF C]] triple_block_Cons [OF D] triple_block_Nil)
  then show ?thesis by (rule triple_snd) simp
qed

lemma run_op_nonempty: "panes s \<noteq> [] \<Longrightarrow> panes (snd (run_op fw op s)) \<noteq> []"
  by (cases op)
     (auto simp: run_op_def action_new_tab_def new_chat_panes close_tab_only_panes
        remove_pane_nonempty permanently_delete_chat_nonempty)

lemma run_ops_nonempty: "panes s \<noteq> [] \<Longrightarrow> panes (run_ops ops s) \<noteq> []"
  by (induction ops s rule: run_ops.induct) (simp_all add: run_op_nonempty)

lemma preserves_mount_sessions:
  assumes "\<And>s v. P s \<Longrightarrow> P (s\<lparr>views := v\<rparr>)" "\<And>s n. P s \<Longrightarrow> P (s\<lparr>fresh := n\<rparr>)"
    "\<And>s v. P s \<Longrightarrow> P (s\<lparr>panes := panes s @ [v]\<rparr>)" "\<And>s v. P s \<Longrightarrow> P (s\<lparr>active := v\<rparr>)"
    "\<And>s a b. P s \<Longrightarrow> P (add_tree_node_for_session a b s)"
  shows "preserves P (mount_sessions ids)"
proof (induction ids)
  case Nil
  show ?case by simp
next
  case (Cons sid rest)
  show ?case
    unfolding mount_sessions.simps
    by (intro preserves_block_Cons preserves_block_Nil preserves_modify
        preserves_create_tab_for_session Cons assms)
qed

lemma add_tree_node_for_session_panes [simp]:
  "panes (add_tree_node_for_session a b s) = panes s"
  by (simp add: add_tree_node_for_session_def)

lemma mount_sessions_nonempty:
  "ids \<noteq> [] \<Longrightarrow> panes (snd (mount_sessions ids s)) \<noteq> []"
proof (cases ids)
  case (Cons sid rest)
  have P: "preserves (\<lambda>s. panes s \<noteq> []) (mount_sessions rest)"
    by (rule preserves_mount_sessions) simp_all
  show ?thesis
    unfolding Cons mount_sessions.simps
    by (simp add: snd_then_do preservesD [OF P] split: outcome.splits)
qed simp

lemma on_mount_nonempty: "panes (snd (on_mount fw s)) \<noteq> []"
  by (simp add: on_mount_def Let_def set_syncing_def snd_then_do mount_sessions_nonempty
      split: outcome.splits)

subsection \<open>The selection synchronizer\<close>







subsection \<open>At least one session\<close>

lemma permanently_delete_chat_replacement:
  assumes "panes s = [p]" "pane_id p = sid"
  shows "\<lparr>pane_id = next_session_id (files s), pane_title = next_session_id (files s)\<rparr>
           \<in> set (panes (snd (permanently_delete_chat fw sid s)))"
proof -
  let ?new = "\<lparr>pane_id = next_session_id (files s), pane_title = next_session_id (files s)\<rparr>"
  let ?in = "\<lambda>t. ?new \<in> set (panes t)"
  have A: "triple (\<lambda>t. t = s) (\<lambda>s. if length (panes s) \<le> 1 then new_chat fw s else ret () s)
             (\<lambda>_ t. panes t = [p, ?new]) ?in"
    by (rule tripleI) (use assms new_chat_panes [of fw s] in \<open>auto split: if_splits\<close>)
  have B: "triple (\<lambda>t. panes t = [p, ?new]) (close_tab_only fw sid) (\<lambda>_. ?in) ?in"
    by (rule triple_from_snd) (use assms in \<open>auto simp: close_tab_only_panes\<close>)
  have C: "preserves ?in (\<lambda>s. let path = session_file sid in
             if path_exists path (files s) then
               (if os_remove_raises fw path then
                  (case active s of
                     None \<Rightarrow> ret () s
                   | Some a \<Rightarrow> if a \<noteq> [] then system_bubble a (warn_delete_text path) s
                               else ret () s)
                else modify (\<lambda>s. s\<lparr>files := os_remove path (files s)\<rparr>) s)
             else ret () s)"
    by (auto simp: preserves_def Let_def ret_def modify_def split: option.splits)
  have D: "triple ?in (remove_tree_node fw sid) (\<lambda>_. ?in) ?in"
    by (rule triple_from_snd) simp
  have "triple (\<lambda>t. t = s) (permanently_delete_chat fw sid) (\<lambda>_. ?in) ?in"
    unfolding permanently_delete_chat_def
    by (intro triple_block_Cons [OF A] triple_block_Cons [OF B]
        triple_block_Cons [OF triple_preserves [OF C]] triple_block_Cons [OF D] triple_block_Nil)
  then show ?thesis by (rule triple_snd) simp
qed

text \<open>
  C1. From the state that \<open>on_mount\<close> leaves, whatever the history directory held and
  whatever the environment does, every sequence of new-tab, close-tab and permanent-delete
  operations ends with at least one tab pane (the sequence is arbitrary, so this holds
  after each operation). A close with at most one pane open changes no pane, and deleting
  the only open session adds the pane of a freshly minted session.
\<close>

theorem at_least_one_session:
  "panes (run_ops ops (snd (on_mount fw (startup d)))) \<noteq> []
   \<and> (panes s \<noteq> [] \<longrightarrow> panes (run_ops ops s) \<noteq> [])
   \<and> (length (panes s) \<le> 1 \<longrightarrow> panes (snd (close_tab_only fw sid s)) = panes s)
   \<and> (panes s = [p] \<and> pane_id p = sid \<longrightarrow>
        \<lparr>pane_id = next_session_id (files s), pane_title = next_session_id (files s)\<rparr>
          \<in> set (panes (snd (permanently_delete_chat fw sid s))))"
  by (simp add: run_ops_nonempty on_mount_nonempty close_tab_only_panes
      permanently_delete_chat_replacement)

theorem at_least_one_session_witness:
  "panes (run_ops [(fw_ok, Close_tab ''chat_001''), (fw_ok, Delete_session ''chat_001'')] one_chat)
     \<noteq> []
   \<and> panes (snd (close_tab_only fw_ok ''chat_001'' one_chat)) = panes one_chat
   \<and> \<lparr>pane_id = ''chat_002'', pane_title = ''chat_002''\<rparr>
        \<in> set (panes (snd (permanently_delete_chat fw_ok ''chat_001'' one_chat)))"
proof -
  have h: "panes one_chat = [\<lparr>pane_id = ''chat_001'', pane_title = ''chat_001''\<rparr>]"
    by (simp add: one_chat_def)
  have n: "next_session_id (files one_chat) = ''chat_002''"
    by code_simp
  show ?thesis
    using h n
      at_least_one_session [of "[(fw_ok, Close_tab ''chat_001''), (fw_ok, Delete_session ''chat_001'')]"
        fw_ok "[]" one_chat "''chat_001''" "\<lparr>pane_id = ''chat_001'', pane_title = ''chat_001''\<rparr>"]
    by simp
qed

subsection \<open>Frame conditions\<close>

lemma snd_try_except:
  "snd (try_except m h s) =
     (case fst (m s) of Returns x \<Rightarrow> snd (m s) | Raises e \<Rightarrow> snd (h e (snd (m s))))"
  by (cases "m s"; cases "fst (m s)") (auto simp: try_except_def)

lemma fst_try_except:
  "fst (try_except m h s) =
     (case fst (m s) of Returns x \<Rightarrow> Returns x | Raises e \<Rightarrow> fst (h e (snd (m s))))"
  by (cases "m s"; cases "fst (m s)") (auto simp: try_except_def)

lemma fst_try_finally [simp]: "fst (try_finally m fin s) = fst (m s)"
  by (simp add: try_finally_def split: prod.splits)

lemma add_message_frame [simp]:
  "files (snd (add_message r c x u)) = files u"
  "tree (snd (add_message r c x u)) = tree u"
  "tree_nodes (snd (add_message r c x u)) = tree_nodes u"
  "input (snd (add_message r c x u)) = input u"
  "panes (snd (add_message r c x u)) = panes u"
  "active (snd (add_message r c x u)) = active u"
  by (rule preserves_eqD, rule preserves_add_message; simp)+

lemma system_bubble_frame [simp]:
  "files (snd (system_bubble sid t u)) = files u"
  "tree (snd (system_bubble sid t u)) = tree u"
  "tree_nodes (snd (system_bubble sid t u)) = tree_nodes u"
  "input (snd (system_bubble sid t u)) = input u"
  "active (snd (system_bubble sid t u)) = active u"
  by (rule preserves_eqD, rule preserves_system_bubble; simp)+

lemma select_tree_node_frame [simp]:
  "files (snd (select_tree_node fw sid u)) = files u"
  "tree (snd (select_tree_node fw sid u)) = tree u"
  "tree_nodes (snd (select_tree_node fw sid u)) = tree_nodes u"
  "views (snd (select_tree_node fw sid u)) = views u"
  "input (snd (select_tree_node fw sid u)) = input u"
  "active (snd (select_tree_node fw sid u)) = active u"
  "fresh (snd (select_tree_node fw sid u)) = fresh u"
  by (rule preserves_eqD, rule preserves_select_tree_node; simp)+

lemma create_tab_for_session_frame [simp]:
  "files (snd (create_tab_for_session sid sw ld w t u)) = files u"
  "tree (snd (create_tab_for_session sid sw ld w t u)) = tree u"
  "tree_nodes (snd (create_tab_for_session sid sw ld w t u)) = tree_nodes u"
  "input (snd (create_tab_for_session sid sw ld w t u)) = input u"
  by (rule preserves_eqD, rule preserves_create_tab_for_session; simp)+

lemma add_tree_node_for_session_frame [simp]:
  "files (add_tree_node_for_session a b s) = files s"
  "views (add_tree_node_for_session a b s) = views s"
  "input (add_tree_node_for_session a b s) = input s"
  "active (add_tree_node_for_session a b s) = active s"
  "syncing_ui (add_tree_node_for_session a b s) = syncing_ui s"
  by (simp_all add: add_tree_node_for_session_def)

lemma close_tab_only_frame:
  "files (snd (close_tab_only fw sid s)) = files s"
  "tree (snd (close_tab_only fw sid s)) = tree s"
  "tree_nodes (snd (close_tab_only fw sid s)) = tree_nodes s"
  "input (snd (close_tab_only fw sid s)) = input s"
  by (cases "length (panes s) \<le> 1";
      simp add: close_tab_only_def Let_def set_syncing_def snd_then_do
        split: list.splits outcome.splits)+

lemma remove_tree_node_frame [simp]:
  "files (snd (remove_tree_node fw sid s)) = files s"
  "views (snd (remove_tree_node fw sid s)) = views s"
  "input (snd (remove_tree_node fw sid s)) = input s"
  "active (snd (remove_tree_node fw sid s)) = active s"
  by (simp_all add: remove_tree_node_def set_syncing_def tree_select_node_def action_defs
      split: list.splits option.splits)


subsection \<open>The log holds no placeholder\<close>










lemma model_response_begin_unfold:
  assumes "active s = Some sid" "sid \<noteq> []" "strip (input s) = p" "p \<noteq> []"
  shows "model_response_begin fw s =
    (if startswith p ''/rename '' then
       then_do (rename_command fw sid p) (\<lambda>_. ret None) s
     else if p = ''/new'' then
       then_do (block [modify clear_input, action_new_tab fw]) (\<lambda>_. ret None) s
     else if p = ''/close'' then
       then_do (block [modify clear_input, action_close_tab fw]) (\<lambda>_. ret None) s
     else if p = ''/delete'' then
       then_do (block [modify clear_input, permanently_delete_chat fw sid]) (\<lambda>_. ret None) s
     else
       then_do
         (block [then_do (add_message ''user'' p (Some sid)) (\<lambda>_. ret ()),
                 save_message fw ''user'' p sid,
                 modify clear_input])
         (\<lambda>_. then_do (add_message ''status'' thinking_text (Some sid))
                 (\<lambda>w. ret (Some \<lparr>req_sid = sid, req_prompt = p, req_typing = w\<rparr>)))
         s)"
  using assms by (simp add: model_response_begin_def Let_def)

lemma snd_then_do_const_ret [simp]: "snd (then_do m (\<lambda>_. ret x) s) = snd (m s)"
  by (simp add: snd_then_do split: outcome.splits)


subsection \<open>Completion of a request\<close>

lemma fst_add_message_Some [simp]:
  "sid \<noteq> [] \<Longrightarrow> fst (add_message r c (Some sid) s) = Returns (fresh s)"
  by (simp add: add_message_Some)

lemma remove_widget_frame [simp]:
  "files (remove_widget w s) = files s"
  "panes (remove_widget w s) = panes s"
  "fresh (remove_widget w s) = fresh s"
  "active (remove_widget w s) = active s"
  by (simp_all add: remove_widget_def)

lemma shown_update [simp]:
  "shown sid (s\<lparr>files := d\<rparr>) = shown sid s"
  "shown sid (s\<lparr>input := i\<rparr>) = shown sid s"
  by (simp_all add: shown_def)



lemma shown_remove_widget:
  "shown sid (remove_widget w s) =
     map (\<lambda>b. (brole b, btext b))
       (filter (\<lambda>b. wid b \<noteq> w)
          (case map_of (views s) sid of None \<Rightarrow> [] | Some v \<Rightarrow> bubbles v))"
proof -
  have "map_of (map (\<lambda>(k, v). (k, f v)) al) sid = map_option f (map_of al sid)"
    for f :: "view \<Rightarrow> view" and al
    by (induction al) auto
  then show ?thesis
    by (simp add: shown_def remove_widget_def split: option.splits)
qed



lemma shown_bubbles_of: "shown sid s = map (\<lambda>b. (brole b, btext b)) (bubbles_of sid s)"
  by (simp add: shown_def bubbles_of_def split: option.splits)

lemma bubbles_of_add_message:
  "sid \<noteq> [] \<Longrightarrow> bubbles_of k (snd (add_message r c (Some sid) s)) =
     (if k = sid then bubbles_of sid s @ [\<lparr>wid = fresh s, brole = r, btext = c\<rparr>]
      else bubbles_of k s)"
  by (simp add: add_message_Some bubbles_of_def map_of_map_entry AList.update_conv'
      split: option.splits)

lemma fresh_add_message [simp]:
  "sid \<noteq> [] \<Longrightarrow> fresh (snd (add_message r c (Some sid) s)) = Suc (fresh s)"
  by (simp add: add_message_Some)

lemma bubbles_of_update [simp]:
  "bubbles_of sid (s\<lparr>files := d\<rparr>) = bubbles_of sid s"
  "bubbles_of sid (s\<lparr>input := i\<rparr>) = bubbles_of sid s"
  by (simp_all add: bubbles_of_def)



subsection \<open>Command interception\<close>

lemma ordinary_send:
  assumes "active s = Some sid" "sid \<noteq> []" "strip (input s) = p" "p \<noteq> []"
    "\<not> startswith p ''/rename ''" "p \<noteq> ''/new''" "p \<noteq> ''/close''" "p \<noteq> ''/delete''"
  shows "fst (model_response_begin fw s) =
           Returns (Some \<lparr>req_sid = sid, req_prompt = p, req_typing = Suc (fresh s)\<rparr>)"
    and "bubbles_of sid (snd (model_response_begin fw s)) =
           bubbles_of sid s @ [\<lparr>wid = fresh s, brole = ''user'', btext = p\<rparr>,
                               \<lparr>wid = Suc (fresh s), brole = ''status'', btext = thinking_text\<rparr>]"
    and "files (snd (model_response_begin fw s)) =
           append_line (session_file sid) (Obj (Some (utcnow fw)) (Some ''user'') (Some p)) (files s)"
    and "input (snd (model_response_begin fw s)) = []"
  unfolding model_response_begin_unfold [OF assms(1-4)]
  using assms(2,5-8)
  by (simp_all add: snd_then_do fst_then_do save_message_def clear_input_def
      bubbles_of_add_message)

lemma intercepted_send:
  assumes "active s = Some sid" "sid \<noteq> []" "strip (input s) = p" "p \<noteq> []"
    "startswith p ''/rename '' \<or> p = ''/new'' \<or> p = ''/close'' \<or> p = ''/delete''"
  shows "fst (model_response_begin fw s) \<noteq> Returns (Some rq)"
  unfolding model_response_begin_unfold [OF assms(1-4)]
  using assms(5)
  by (auto simp add: fst_then_do simp del: block.simps split: outcome.splits)

theorem command_interception_counterexample:
  "'' /delete '' \<noteq> ''/delete''
   \<and> model_response_begin fw_ok (one_chat\<lparr>input := '' /delete ''\<rparr>) =
       (Returns None, snd (permanently_delete_chat fw_ok ''chat_001'' one_chat))
   \<and> \<not> path_exists ''chat_001.jsonl''
         (files (snd (model_response_begin fw_ok (one_chat\<lparr>input := '' /delete ''\<rparr>))))
   \<and> length ''/rename '' = 8"
  by code_simp

text \<open>
  C9. Command interception is by exact match on the stripped input \<open>prompt_input\<close>. With
  an active session and a non-empty stripped input \<open>p\<close>: if \<open>p\<close> is none of \<open>/new\<close>, \<open>/close\<close>,
  \<open>/delete\<close> and does not begin with the eight characters of \<open>/rename\<close> and a space, the
  send is an ordinary prompt: the user turn and the placeholder are displayed, the user
  turn is appended to the session's log, the input is cleared, and the request for \<open>p\<close> is
  dispatched (the whole send is the completion of that request). If \<open>p\<close> is one of the
  commands, no request is dispatched.
\<close>

theorem command_interception_exact:
  assumes "active s = Some sid" "sid \<noteq> []" "strip (input s) = p" "p \<noteq> []"
  shows "(\<not> startswith p ''/rename '' \<and> p \<noteq> ''/new'' \<and> p \<noteq> ''/close'' \<and> p \<noteq> ''/delete'' \<longrightarrow>
            fst (model_response_begin fw s) =
              Returns (Some \<lparr>req_sid = sid, req_prompt = p, req_typing = Suc (fresh s)\<rparr>)
          \<and> shown sid (snd (model_response_begin fw s)) =
              shown sid s @ [(''user'', p), (''status'', thinking_text)]
          \<and> files (snd (model_response_begin fw s)) =
              append_line (session_file sid)
                (Obj (Some (utcnow fw)) (Some ''user'') (Some p)) (files s)
          \<and> input (snd (model_response_begin fw s)) = []
          \<and> model_response fw s =
              model_response_complete fw
                \<lparr>req_sid = sid, req_prompt = p, req_typing = Suc (fresh s)\<rparr>
                (snd (model_response_begin fw s)))
       \<and> (startswith p ''/rename '' \<or> p = ''/new'' \<or> p = ''/close'' \<or> p = ''/delete'' \<longrightarrow>
            (\<forall>rq. fst (model_response_begin fw s) \<noteq> Returns (Some rq)))"
proof (intro conjI impI allI)
  fix rq
  assume "startswith p ''/rename '' \<or> p = ''/new'' \<or> p = ''/close'' \<or> p = ''/delete''"
  then show "fst (model_response_begin fw s) \<noteq> Returns (Some rq)"
    using assms by (rule intercepted_send [rotated 4])
next
  assume o: "\<not> startswith p ''/rename '' \<and> p \<noteq> ''/new'' \<and> p \<noteq> ''/close'' \<and> p \<noteq> ''/delete''"
  note os = ordinary_send [OF assms, of fw]
  from o show f: "fst (model_response_begin fw s) =
      Returns (Some \<lparr>req_sid = sid, req_prompt = p, req_typing = Suc (fresh s)\<rparr>)"
    by (simp add: os)
  from o show "shown sid (snd (model_response_begin fw s)) =
      shown sid s @ [(''user'', p), (''status'', thinking_text)]"
    by (simp add: shown_bubbles_of os)
  from o show "files (snd (model_response_begin fw s)) =
      append_line (session_file sid) (Obj (Some (utcnow fw)) (Some ''user'') (Some p)) (files s)"
    by (simp add: os)
  from o show "input (snd (model_response_begin fw s)) = []"
    by (simp add: os)
  from f show "model_response fw s =
      model_response_complete fw \<lparr>req_sid = sid, req_prompt = p, req_typing = Suc (fresh s)\<rparr>
        (snd (model_response_begin fw s))"
    by (cases "model_response_begin fw s") (simp add: model_response_def then_do_def)
qed

theorem command_interception_exact_witness:
  "fst (model_response_begin fw_ok (one_chat\<lparr>input := ''/delete x''\<rparr>)) =
     Returns (Some \<lparr>req_sid = ''chat_001'', req_prompt = ''/delete x'', req_typing = 3\<rparr>)
   \<and> fst (model_response_begin fw_ok (one_chat\<lparr>input := ''/rename ''\<rparr>)) =
     Returns (Some \<lparr>req_sid = ''chat_001'', req_prompt = ''/rename'', req_typing = 3\<rparr>)
   \<and> fst (model_response_begin fw_ok (one_chat\<lparr>input := '' /delete ''\<rparr>)) \<noteq>
     Returns (Some \<lparr>req_sid = ''chat_001'', req_prompt = ''/delete'', req_typing = 3\<rparr>)"
proof -
  have a: "active (one_chat\<lparr>input := i\<rparr>) = Some ''chat_001''" for i
    by (simp add: one_chat_def)
  have f: "fresh (one_chat\<lparr>input := i\<rparr>) = 2" for i
    by (simp add: one_chat_def)
  have 1: "strip (input (one_chat\<lparr>input := ''/delete x''\<rparr>)) = ''/delete x''"
    and 2: "strip (input (one_chat\<lparr>input := ''/rename ''\<rparr>)) = ''/rename''"
    and 3: "strip (input (one_chat\<lparr>input := '' /delete ''\<rparr>)) = ''/delete''"
    by (simp_all add: strip_def py_space_def)
  show ?thesis
    using command_interception_exact [OF a _ 1, of fw_ok]
      command_interception_exact [OF a _ 2, of fw_ok]
      command_interception_exact [OF a _ 3, of fw_ok]
    by (simp add: f startswith_def numeral_3_eq_3)
qed

subsection \<open>A failed request\<close>




subsection \<open>A result for a session without a view\<close>




subsection \<open>Loading history\<close>

lemma load_lines_well_formed:
  "sid \<noteq> [] \<Longrightarrow> list_all well_formed ls \<Longrightarrow>
     fst (load_lines sid ls s) = Returns () \<and>
     shown sid (snd (load_lines sid ls s)) = shown sid s @ turns ls"
  by (induction sid ls arbitrary: s rule: load_lines.induct)
     (simp_all add: well_formed_def fst_then_do snd_then_do shown_add_message)


lemma load_history_well_formed:
  assumes "sid \<noteq> []" "map_of (files s) (session_file sid) = Some ls" "list_all well_formed ls"
  shows "fst (load_history sid s) = Returns ()"
    and "shown sid (snd (load_history sid s)) = shown sid s @ turns ls"
  using assms load_lines_well_formed [of sid ls s]
  by (simp_all add: load_history_def fst_try_except snd_try_except)

lemma load_history_absent:
  "map_of (files s) (session_file sid) = None \<Longrightarrow> load_history sid s = (Returns (), s)"
  by (simp add: load_history_def ret_def)




subsection \<open>Stripped text\<close>




subsection \<open>Rename\<close>







subsection \<open>Close and permanent delete\<close>

lemma select_tree_node_returns:
  "\<forall>n. \<not> select_node_raises fw n \<Longrightarrow> fst (select_tree_node fw sid s) = Returns ()"
  by (simp add: select_tree_node_def tree_select_node_def fst_then_do split: option.splits)

lemma system_bubble_returns: "sid \<noteq> [] \<Longrightarrow> fst (system_bubble sid t s) = Returns ()"
  by (simp add: system_bubble_def fst_then_do)

lemma new_chat_returns:
  "\<forall>n. \<not> select_node_raises fw n \<Longrightarrow> fst (new_chat fw s) = Returns ()"
  by (simp add: new_chat_def Let_def fst_then_do create_tab_for_session_def
      select_tree_node_returns split: outcome.splits)

lemma close_tab_only_returns:
  "\<forall>n. \<not> select_node_raises fw n \<Longrightarrow> sid \<noteq> [] \<Longrightarrow> fst (close_tab_only fw sid s) = Returns ()"
  by (cases "length (panes s) \<le> 1")
     (simp_all add: close_tab_only_def Let_def fst_then_do system_bubble_returns
        select_tree_node_returns split: list.splits outcome.splits)

lemma remove_tree_node_returns:
  "\<forall>n. \<not> select_node_raises fw n \<Longrightarrow> fst (remove_tree_node fw sid s) = Returns ()"
  by (simp add: remove_tree_node_def fst_then_do tree_select_node_def
      split: list.splits outcome.splits option.splits)

lemma remove_tree_node_tree_nodes:
  "map_of (tree_nodes (snd (remove_tree_node fw sid s))) sid = None"
  by (simp add: remove_tree_node_def snd_then_do set_syncing_def tree_select_node_def
      AList.delete_conv' split: list.splits outcome.splits option.splits)

lemma remove_tree_node_tree:
  "tree (snd (remove_tree_node fw sid s)) =
     (case map_of (tree_nodes s) sid of
        None \<Rightarrow> tree s
      | Some n \<Rightarrow> filter (\<lambda>nd. node_id nd \<noteq> n) (tree s))"
  by (simp add: remove_tree_node_def snd_then_do set_syncing_def tree_select_node_def
      split: list.splits outcome.splits option.splits)

lemma path_exists_os_remove [simp]: "\<not> path_exists p (os_remove p d)"
  by (simp add: path_exists_def os_remove_def AList.delete_conv')

lemma permanently_delete_chat_effect:
  assumes "\<forall>n. \<not> select_node_raises fw n" "\<not> os_remove_raises fw (session_file sid)"
    "sid \<noteq> []"
  shows "fst (permanently_delete_chat fw sid s) = Returns ()"
    and "\<not> path_exists (session_file sid) (files (snd (permanently_delete_chat fw sid s)))"
    and "map_of (tree_nodes (snd (permanently_delete_chat fw sid s))) sid = None"
    and "1 < length (panes s) \<Longrightarrow> tree (snd (permanently_delete_chat fw sid s)) =
           (case map_of (tree_nodes s) sid of
              None \<Rightarrow> tree s
            | Some n \<Rightarrow> filter (\<lambda>nd. node_id nd \<noteq> n) (tree s))"
  using assms
  by (simp_all add: permanently_delete_chat_def Let_def fst_then_do snd_then_do
      new_chat_returns close_tab_only_returns remove_tree_node_returns
      remove_tree_node_tree_nodes remove_tree_node_tree close_tab_only_frame
      split: option.splits)

lemma load_history_active [simp]: "active (snd (load_history sid u)) = active u"
  by (rule preserves_eqD) (rule preserves_load_history; simp)

lemma find_snoc:
  "find P (xs @ [x]) = (case find P xs of None \<Rightarrow> (if P x then Some x else None) | Some y \<Rightarrow> Some y)"
  by (induction xs) auto

lemma shown_fresh_view [simp]:
  "shown sid (u\<lparr>views := AList.update sid \<lparr>mounted = m, bubbles = []\<rparr> vs\<rparr>) = []"
  by (simp add: shown_def AList.update_conv')

lemma shown_other_update [simp]:
  "shown sid (u\<lparr>panes := ps\<rparr>) = shown sid u"
  "shown sid (u\<lparr>active := a\<rparr>) = shown sid u"
  "shown sid (u\<lparr>last_tree_sid := l\<rparr>) = shown sid u"
  by (simp_all add: shown_def)

lemma reopen_tab:
  assumes "sid \<noteq> []" "map_of (files u) (session_file sid) = Some ls" "list_all well_formed ls"
  shows "fst (create_tab_for_session sid True True w None u) = Returns ()"
    and "shown sid (snd (create_tab_for_session sid True True w None u)) = turns ls"
    and "active (snd (create_tab_for_session sid True True w None u)) = Some sid"
    and "map_of (views (snd (create_tab_for_session sid True True w None u))) sid \<noteq> None"
proof -
  let ?u = "u\<lparr>panes := panes u @ [\<lparr>pane_id = sid, pane_title = sid\<rparr>], active := Some sid,
              views := AList.update sid \<lparr>mounted = True, bubbles = []\<rparr> (views u)\<rparr>"
  have c: "create_tab_for_session sid True True w None u = load_history sid ?u"
    using assms(1) by (simp add: create_tab_for_session_def py_or_def truthy_def)
  have f: "map_of (files ?u) (session_file sid) = Some ls" using assms(2) by simp
  note lh = load_history_well_formed [OF assms(1) f assms(3)]
  show "fst (create_tab_for_session sid True True w None u) = Returns ()"
    unfolding c by (rule lh)
  have sh: "shown sid (snd (load_history sid ?u)) = turns ls"
    using lh(2) by (simp del: load_history_well_formed)
  then show "shown sid (snd (create_tab_for_session sid True True w None u)) = turns ls"
    unfolding c .
  show "active (snd (create_tab_for_session sid True True w None u)) = Some sid"
    unfolding c by simp
  have "map_of (views ?u) sid \<noteq> None" by (simp add: AList.update_conv')
  moreover have "preserves (\<lambda>t. map_of (views t) sid \<noteq> None) (load_history sid)"
  proof -
    have am: "preserves (\<lambda>t. map_of (views t) sid \<noteq> None) (add_message r c x)" for r c x
      by (auto simp: preserves_def add_message_def current_view_def mount_bubble_def
          action_defs map_of_map_entry AList.update_conv' split: option.splits)
    have ll: "preserves (\<lambda>t. map_of (views t) sid \<noteq> None) (load_lines k ls)" for k ls
    proof (induction k ls rule: load_lines.induct)
      case (3 session_id t r c ls)
      show ?case unfolding load_lines.simps by (intro preserves_then_do am 3)
    qed simp_all
    have "preserves (\<lambda>t. map_of (views t) sid \<noteq> None) (try_except (load_lines sid ls)
      (\<lambda>e. then_do (add_message ''system'' (load_failed_text sid e) (Some sid)) (\<lambda>_. ret ())))"
      for ls
      by (intro preserves_try_except preserves_then_do ll am preserves_ret)
    then show ?thesis
      by (auto simp: preserves_def load_history_def ret_def split: option.splits)
  qed
  ultimately show "map_of (views (snd (create_tab_for_session sid True True w None u))) sid \<noteq> None"
    unfolding c by (rule preservesD [rotated])
qed

theorem close_deletes_counterexample:
  "active two_chats = Some ''chat_002''
   \<and> path_exists ''chat_002.jsonl'' (files two_chats)
   \<and> map_of (tree_nodes two_chats) ''chat_002'' = Some 3
   \<and> \<not> path_exists ''chat_002.jsonl'' (files (snd (action_close_tab fw_ok two_chats)))
   \<and> map_of (tree_nodes (snd (action_close_tab fw_ok two_chats))) ''chat_002'' = None
   \<and> map node_data (tree (snd (action_close_tab fw_ok two_chats))) = [''chat_001'']
   \<and> \<not> path_exists ''chat_002.jsonl''
         (files (snd (model_response_begin fw_ok (two_chats\<lparr>input := ''/close''\<rparr>))))"
  by code_simp

text \<open>
  C2 as the code has it. Closing a tab alone (\<open>_close_tab_only\<close>) leaves the history
  directory, the tree and the map of tree nodes as they were, and a session without a
  pane is reopened by selecting its tree node: the handler returns, gives the session a
  pane and a registered view, makes it the active tab and, for a log without malformed
  records, shows exactly the log's turns. The close-chat action (the key binding and the
  \<open>/close\<close> command) is a permanent delete of the active session: when neither
  \<open>select_node\<close> nor \<open>os.remove\<close> raises, it returns with the session's log file absent
  and the session gone from the map of tree nodes, and with more than one pane open its
  node is taken out of the tree.
\<close>

theorem close_tab_frame_and_reopen:
  "files (snd (close_tab_only fw sid s)) = files s
   \<and> tree (snd (close_tab_only fw sid s)) = tree s
   \<and> tree_nodes (snd (close_tab_only fw sid s)) = tree_nodes s
   \<and> (\<not> ev_is_root ev \<and> \<not> syncing_ui s \<and> ev_data ev = Some d \<and> strip d = sid \<and> sid \<noteq> []
        \<and> active s \<noteq> Some sid \<and> get_pane sid s = None
        \<and> map_of (files s) (session_file sid) = Some ls \<and> list_all well_formed ls \<longrightarrow>
         fst (on_tree_node_selected ev s) = Returns ()
       \<and> get_pane sid (snd (on_tree_node_selected ev s)) = Some \<lparr>pane_id = sid, pane_title = sid\<rparr>
       \<and> active (snd (on_tree_node_selected ev s)) = Some sid
       \<and> map_of (views (snd (on_tree_node_selected ev s))) sid \<noteq> None
       \<and> shown sid (snd (on_tree_node_selected ev s)) = turns ls
       \<and> files (snd (on_tree_node_selected ev s)) = files s)
   \<and> (active s = Some sid \<and> sid \<noteq> [] \<longrightarrow>
         action_close_tab fw s = permanently_delete_chat fw sid s)
   \<and> (active s = Some sid \<and> sid \<noteq> [] \<and> strip (input s) = ''/close'' \<longrightarrow>
         snd (model_response_begin fw s) = snd (permanently_delete_chat fw sid (clear_input s)))
   \<and> (sid \<noteq> [] \<and> (\<forall>n. \<not> select_node_raises fw n) \<and> \<not> os_remove_raises fw (session_file sid) \<longrightarrow>
         fst (permanently_delete_chat fw sid s) = Returns ()
       \<and> \<not> path_exists (session_file sid) (files (snd (permanently_delete_chat fw sid s)))
       \<and> map_of (tree_nodes (snd (permanently_delete_chat fw sid s))) sid = None
       \<and> (1 < length (panes s) \<longrightarrow>
            tree (snd (permanently_delete_chat fw sid s)) =
              (case map_of (tree_nodes s) sid of
                 None \<Rightarrow> tree s
               | Some n \<Rightarrow> filter (\<lambda>nd. node_id nd \<noteq> n) (tree s))))"
proof (intro conjI impI)
  show "files (snd (close_tab_only fw sid s)) = files s"
    "tree (snd (close_tab_only fw sid s)) = tree s"
    "tree_nodes (snd (close_tab_only fw sid s)) = tree_nodes s"
    by (rule close_tab_only_frame)+
next
  assume h: "\<not> ev_is_root ev \<and> \<not> syncing_ui s \<and> ev_data ev = Some d \<and> strip d = sid \<and> sid \<noteq> []
        \<and> active s \<noteq> Some sid \<and> get_pane sid s = None
        \<and> map_of (files s) (session_file sid) = Some ls \<and> list_all well_formed ls"
  let ?u = "s\<lparr>last_tree_sid := Some sid\<rparr>"
  from h have d: "d \<noteq> []" by (auto simp: strip_def)
  with h have e: "on_tree_node_selected ev s = create_tab_for_session sid True True False None ?u"
    by (simp add: on_tree_node_selected_def Let_def py_or_def truthy_def get_pane_def)
  from h have f: "map_of (files ?u) (session_file sid) = Some ls" by simp
  from h have sid: "sid \<noteq> []" and wf: "list_all well_formed ls" by simp_all
  note r = reopen_tab [OF sid f wf, of False]
  show "fst (on_tree_node_selected ev s) = Returns ()" unfolding e by (rule r)
  show "shown sid (snd (on_tree_node_selected ev s)) = turns ls" unfolding e by (rule r)
  show "active (snd (on_tree_node_selected ev s)) = Some sid" unfolding e by (rule r)
  show "map_of (views (snd (on_tree_node_selected ev s))) sid \<noteq> None" unfolding e by (rule r)
  show "files (snd (on_tree_node_selected ev s)) = files s" unfolding e by simp
  from h show "get_pane sid (snd (on_tree_node_selected ev s)) =
      Some \<lparr>pane_id = sid, pane_title = sid\<rparr>"
    unfolding e by (simp add: get_pane_def find_snoc py_or_def truthy_def)
next
  assume "active s = Some sid \<and> sid \<noteq> []"
  then show "action_close_tab fw s = permanently_delete_chat fw sid s"
    by (simp add: action_close_tab_def)
next
  assume h: "active s = Some sid \<and> sid \<noteq> [] \<and> strip (input s) = ''/close''"
  then have "model_response_begin fw s =
      then_do (block [modify clear_input, action_close_tab fw]) (\<lambda>_. ret None) s"
    using model_response_begin_unfold [of s sid "''/close''" fw] by (simp add: startswith_def)
  with h show "snd (model_response_begin fw s) = snd (permanently_delete_chat fw sid (clear_input s))"
    by (simp add: action_close_tab_def clear_input_def)
next
  assume h: "sid \<noteq> [] \<and> (\<forall>n. \<not> select_node_raises fw n) \<and> \<not> os_remove_raises fw (session_file sid)"
  then have a: "\<forall>n. \<not> select_node_raises fw n" "\<not> os_remove_raises fw (session_file sid)"
    "sid \<noteq> []" by simp_all
  note e = permanently_delete_chat_effect [OF a]
  show "fst (permanently_delete_chat fw sid s) = Returns ()" by (rule e)
  show "\<not> path_exists (session_file sid) (files (snd (permanently_delete_chat fw sid s)))"
    by (rule e)
  show "map_of (tree_nodes (snd (permanently_delete_chat fw sid s))) sid = None" by (rule e)
  assume "1 < length (panes s)"
  then show "tree (snd (permanently_delete_chat fw sid s)) =
              (case map_of (tree_nodes s) sid of
                 None \<Rightarrow> tree s
               | Some n \<Rightarrow> filter (\<lambda>nd. node_id nd \<noteq> n) (tree s))"
    by (rule e)
qed

theorem close_tab_frame_and_reopen_witness:
  "get_pane ''chat_001'' closed_chat = None
   \<and> shown ''chat_001''
        (snd (on_tree_node_selected \<lparr>ev_is_root = False, ev_data = Some ''chat_001''\<rparr> closed_chat)) =
       [(''user'', ''hi''), (''assistant'', ''hello'')]
   \<and> \<not> path_exists (session_file ''chat_002'')
         (files (snd (permanently_delete_chat fw_ok ''chat_002'' two_chats)))
   \<and> action_close_tab fw_ok two_chats = permanently_delete_chat fw_ok ''chat_002'' two_chats
   \<and> snd (model_response_begin fw_ok (two_chats\<lparr>input := ''/close''\<rparr>)) =
       snd (permanently_delete_chat fw_ok ''chat_002'' (clear_input (two_chats\<lparr>input := ''/close''\<rparr>)))
   \<and> tree (snd (permanently_delete_chat fw_ok ''chat_002'' two_chats)) =
       [\<lparr>node_id = 1, node_label = ''chat_001'', node_data = ''chat_001''\<rparr>]"
proof -
  let ?ev = "\<lparr>ev_is_root = False, ev_data = Some ''chat_001''\<rparr>"
  let ?ls = "[Obj (Some ''T'') (Some ''user'') (Some ''hi''),
              Obj (Some ''T'') (Some ''assistant'') (Some ''hello'')]"
  let ?tc = "two_chats\<lparr>input := ''/close''\<rparr>"
  have h: "\<not> ev_is_root ?ev \<and> \<not> syncing_ui closed_chat \<and> ev_data ?ev = Some ''chat_001''
      \<and> strip ''chat_001'' = ''chat_001'' \<and> ''chat_001'' \<noteq> []
      \<and> active closed_chat \<noteq> Some ''chat_001'' \<and> get_pane ''chat_001'' closed_chat = None
      \<and> map_of (files closed_chat) (session_file ''chat_001'') = Some ?ls
      \<and> list_all well_formed ?ls"
    by code_simp
  have t: "turns ?ls = [(''user'', ''hi''), (''assistant'', ''hello'')]" by simp
  have k: "''chat_002'' \<noteq> [] \<and> (\<forall>n. \<not> select_node_raises fw_ok n)
      \<and> \<not> os_remove_raises fw_ok (session_file ''chat_002'')"
    by (simp add: fw_ok_def)
  have a: "active two_chats = Some ''chat_002'' \<and> ''chat_002'' \<noteq> []"
    by code_simp
  have a': "active ?tc = Some ''chat_002'' \<and> ''chat_002'' \<noteq> [] \<and> strip (input ?tc) = ''/close''"
    by code_simp
  have l: "1 < length (panes two_chats)" by code_simp
  have tr: "(case map_of (tree_nodes two_chats) ''chat_002'' of
                 None \<Rightarrow> tree two_chats
               | Some n \<Rightarrow> filter (\<lambda>nd. node_id nd \<noteq> n) (tree two_chats)) =
       [\<lparr>node_id = 1, node_label = ''chat_001'', node_data = ''chat_001''\<rparr>]"
    by code_simp
  note c = close_tab_frame_and_reopen [of fw_ok "''chat_002''" two_chats ?ev "''chat_001''" ?ls]
  note b = close_tab_frame_and_reopen [of fw_ok "''chat_001''" closed_chat ?ev "''chat_001''" ?ls]
  note d = close_tab_frame_and_reopen [of fw_ok "''chat_002''" ?tc ?ev "''chat_001''" ?ls]
  from b h have 1: "shown ''chat_001'' (snd (on_tree_node_selected ?ev closed_chat)) = turns ?ls"
    by blast
  from c k have 2: "\<not> path_exists (session_file ''chat_002'')
         (files (snd (permanently_delete_chat fw_ok ''chat_002'' two_chats)))"
    by blast
  from c a have 3: "action_close_tab fw_ok two_chats =
      permanently_delete_chat fw_ok ''chat_002'' two_chats"
    by blast
  from d a' have 4: "snd (model_response_begin fw_ok ?tc) =
       snd (permanently_delete_chat fw_ok ''chat_002'' (clear_input ?tc))"
    by blast
  from c k l have "tree (snd (permanently_delete_chat fw_ok ''chat_002'' two_chats)) =
       (case map_of (tree_nodes two_chats) ''chat_002'' of
                 None \<Rightarrow> tree two_chats
               | Some n \<Rightarrow> filter (\<lambda>nd. node_id nd \<noteq> n) (tree two_chats))"
    by blast
  with tr have 5: "tree (snd (permanently_delete_chat fw_ok ''chat_002'' two_chats)) =
       [\<lparr>node_id = 1, node_label = ''chat_001'', node_data = ''chat_001''\<rparr>]"
    by simp
  from h 1 2 3 4 5 t show ?thesis by simp
qed

subsection \<open>Minting session identifiers\<close>

lemma py_int_snoc: "py_int (ds @ [c]) = 10 * py_int ds + digit_val c"
  by (simp add: py_int_def)

lemma digit_table:
  assumes "j < 10"
  shows "digit_val (''0123456789'' ! j) = j" and "''0123456789'' ! j \<noteq> CHR ''_''"
proof -
  from assms consider "j = 0" | "j = 1" | "j = 2" | "j = 3" | "j = 4" | "j = 5" | "j = 6"
    | "j = 7" | "j = 8" | "j = 9"
    by atomize_elim arith
  then show "digit_val (''0123456789'' ! j) = j" by cases (simp_all add: digit_val_def)
  from assms consider "j = 0" | "j = 1" | "j = 2" | "j = 3" | "j = 4" | "j = 5" | "j = 6"
    | "j = 7" | "j = 8" | "j = 9"
    by atomize_elim arith
  then show "''0123456789'' ! j \<noteq> CHR ''_''" by cases simp_all
qed

lemma digit_val_digit_char: "digit_val (digit_char k) = k mod 10"
  by (simp add: digit_char_def digit_table)

lemma py_int_dec: "py_int (dec n) = n"
proof (induction n rule: dec.induct)
  case (1 n)
  show ?case
  proof (cases "n < 10")
    case True
    then show ?thesis
      by (subst dec.simps) (simp add: py_int_def digit_val_digit_char)
  next
    case False
    with 1 have "py_int (dec (n div 10)) = n div 10" by simp
    with False show ?thesis
      by (subst dec.simps) (simp add: py_int_snoc digit_val_digit_char)
  qed
qed

lemma py_int_zeros: "py_int (replicate k (CHR ''0'') @ ds) = py_int ds"
proof -
  have "foldl (\<lambda>a c. 10 * a + digit_val c) 0 (replicate k (CHR ''0'')) = 0"
    by (induction k) (simp_all add: digit_val_def)
  then show ?thesis by (simp add: py_int_def)
qed

lemma py_int_fmt03: "py_int (fmt03 n) = n"
  by (simp add: fmt03_def py_int_zeros py_int_dec)

lemma digit_char_not_underscore: "digit_char k \<noteq> CHR ''_''"
  by (simp add: digit_char_def digit_table)

lemma dec_no_underscore: "CHR ''_'' \<notin> set (dec n)"
proof (induction n rule: dec.induct)
  case (1 n)
  show ?case
  proof (cases "n < 10")
    case True
    then show ?thesis
      using digit_char_not_underscore [of n] by (subst dec.simps) auto
  next
    case False
    with 1 have "CHR ''_'' \<notin> set (dec (n div 10))" by simp
    with False show ?thesis
      using digit_char_not_underscore [of n] by (subst dec.simps) auto
  qed
qed

lemma fmt03_no_underscore: "CHR ''_'' \<notin> set (fmt03 n)"
  by (auto simp: fmt03_def dec_no_underscore)

lemma split_char_none: "c \<notin> set t \<Longrightarrow> split_char c t = [t]"
  by (induction t) auto

lemma session_ord_chat: "CHR ''_'' \<notin> set g \<Longrightarrow> session_ord (''chat_'' @ g) = py_int g"
  by (simp add: session_ord_def split_char_none)

lemma listed_id_ord:
  assumes "x \<in> set (list_session_ids d)"
  shows "session_ord x \<le> session_ord (last (list_session_ids d))"
proof -
  let ?ids = "list_session_ids d"
  have s: "sorted (map session_ord ?ids)"
    by (simp add: list_session_ids_def)
  from assms obtain i where i: "i < length ?ids" "?ids ! i = x"
    by (auto simp: in_set_conv_nth)
  then have ne: "?ids \<noteq> []" by auto
  have "map session_ord ?ids ! i \<le> map session_ord ?ids ! (length ?ids - 1)"
    using i(1) by (intro sorted_nth_mono [OF s]) simp_all
  with i ne show ?thesis by (simp add: last_conv_nth)
qed

lemma session_ord_chat_Cons:
  "CHR ''_'' \<notin> set g \<Longrightarrow>
     session_ord (CHR ''c'' # CHR ''h'' # CHR ''a'' # CHR ''t'' # CHR ''_'' # g) = py_int g"
  using session_ord_chat [of g] by simp

lemma session_ord_next:
  "session_ord (next_session_id d) =
     (if list_session_ids d = [] then 1 else session_ord (last (list_session_ids d)) + 1)"
proof -
  have "session_ord ''chat_001'' = 1"
    by (simp add: session_ord_def py_int_def digit_val_def)
  then show ?thesis
    by (simp add: next_session_id_def Let_def session_ord_chat_Cons fmt03_no_underscore
        py_int_fmt03)
qed

lemma is_digit_digit_char: "is_digit (digit_char k)"
proof -
  have "k mod 10 < length ''0123456789''" by simp
  then have "''0123456789'' ! (k mod 10) \<in> set ''0123456789''" by (rule nth_mem)
  then show ?thesis by (simp only: is_digit_def digit_char_def)
qed

lemma dec_digits: "list_all is_digit (dec n)"
proof (induction n rule: dec.induct)
  case (1 n)
  show ?case
  proof (cases "n < 10")
    case True
    then show ?thesis by (subst dec.simps) (simp add: is_digit_digit_char)
  next
    case False
    with 1 have "list_all is_digit (dec (n div 10))" by simp
    with False show ?thesis by (subst dec.simps) (simp add: is_digit_digit_char)
  qed
qed

lemma length_dec: "length (dec n) = (if n < 10 then 1 else if n < 100 then 2 else 3)" if "n < 1000"
proof -
  have 1: "length (dec k) = 1" if "k < 10" for k
    using that by (subst dec.simps) simp
  have 2: "length (dec k) = 2" if "10 \<le> k" "k < 100" for k
    using that 1 [of "k div 10"] by (subst dec.simps) simp
  have 3: "length (dec k) = 3" if "100 \<le> k" "k < 1000" for k
    using that 2 [of "k div 10"] by (subst dec.simps) simp
  show ?thesis using that 1 [of n] 2 [of n] 3 [of n] by auto
qed

lemma fmt03_shape: "n < 1000 \<Longrightarrow> length (fmt03 n) = 3 \<and> list_all is_digit (fmt03 n)"
proof -
  have z: "list_all is_digit (replicate k (CHR ''0''))" for k
    by (simp add: list_all_iff is_digit_def)
  show "n < 1000 \<Longrightarrow> ?thesis"
    by (simp add: fmt03_def length_dec dec_digits z)
qed

lemma session_pattern_minted:
  "length g = 3 \<Longrightarrow> list_all is_digit g \<Longrightarrow>
     glob_match (session_file (''chat_'' @ g)) \<and> session_pattern (session_file (''chat_'' @ g)) = Some g"
  by (simp add: glob_match_def session_pattern_def session_file_def)

lemma set_map_filter_conv: "set (List.map_filter f xs) = {y. \<exists>x\<in>set xs. f x = Some y}"
  by (induction xs) (auto simp: map_filter_simps split: option.splits)

lemma set_list_session_ids:
  "set (list_session_ids d) =
     {''chat_'' @ g | g name. name \<in> fst ` set d \<and> glob_match name \<and> session_pattern name = Some g}"
  by (auto simp: list_session_ids_def set_map_filter_conv)

lemma path_exists_iff: "path_exists p d \<longleftrightarrow> p \<in> fst ` set d"
  by (simp add: path_exists_def map_of_eq_None_iff)

lemma next_session_id_fmt:
  "next_session_id d =
     ''chat_'' @ fmt03 (if list_session_ids d = [] then 1 else session_ord (last (list_session_ids d)) + 1)"
proof -
  have "fmt03 1 = ''001''" by (simp add: fmt03_def dec.simps digit_char_def numeral_2_eq_2)
  then show ?thesis by (simp add: next_session_id_def Let_def)
qed

lemma next_not_listed: "next_session_id d \<notin> set (list_session_ids d)"
proof
  assume a: "next_session_id d \<in> set (list_session_ids d)"
  then have "list_session_ids d \<noteq> []" by auto
  with listed_id_ord [OF a] show False by (simp add: session_ord_next)
qed

lemma minted_file_absent:
  assumes "list_session_ids d = [] \<or> session_ord (last (list_session_ids d)) < 999"
  shows "\<not> path_exists (session_file (next_session_id d)) d"
proof
  let ?n = "if list_session_ids d = [] then 1 else session_ord (last (list_session_ids d)) + 1"
  assume "path_exists (session_file (next_session_id d)) d"
  then have m: "session_file (''chat_'' @ fmt03 ?n) \<in> fst ` set d"
    by (simp only: path_exists_iff next_session_id_fmt)
  from assms have "?n < 1000" by auto
  then have "length (fmt03 ?n) = 3" "list_all is_digit (fmt03 ?n)"
    by (simp_all only: fmt03_shape)
  then have "glob_match (session_file (''chat_'' @ fmt03 ?n))"
    "session_pattern (session_file (''chat_'' @ fmt03 ?n)) = Some (fmt03 ?n)"
    by (simp_all only: session_pattern_minted)
  with m have "''chat_'' @ fmt03 ?n \<in> set (list_session_ids d)"
    unfolding set_list_session_ids by blast
  then have "next_session_id d \<in> set (list_session_ids d)"
    by (simp only: next_session_id_fmt)
  with next_not_listed show False by blast
qed

lemma mint_delete_mint:
  assumes "list_session_ids d = [] \<or> session_ord (last (list_session_ids d)) < 999"
  shows "os_remove (session_file (next_session_id d)) (touch (session_file (next_session_id d)) d) = d"
proof -
  let ?f = "session_file (next_session_id d)"
  have a: "\<not> path_exists ?f d" using assms by (rule minted_file_absent)
  then have "touch ?f d = AList.update ?f [] d" by (simp add: touch_def)
  then have "os_remove ?f (touch ?f d) = AList.delete ?f d"
    by (simp add: os_remove_def delete_update_same)
  with a show ?thesis by (simp add: path_exists_iff)
qed

lemma list_session_ids_unlisted:
  assumes "session_pattern name = None"
  shows "list_session_ids (touch name d) = list_session_ids d"
proof (cases "path_exists name d")
  case True
  then show ?thesis by (simp add: touch_def)
next
  case False
  then have "map fst (touch name d) = map fst d @ [name]"
    by (simp add: touch_def update_keys path_exists_iff)
  with assms show ?thesis
    by (simp add: list_session_ids_def List.map_filter_def)
qed

lemma fmt03_1000: "fmt03 1000 = ''1000''"
proof -
  have "dec 1 = ''1''" by (subst dec.simps) (simp add: digit_char_def)
  then have "dec 10 = ''10''" by (subst dec.simps) (simp add: digit_char_def)
  then have "dec 100 = ''100''" by (subst dec.simps) (simp add: digit_char_def)
  then have "dec 1000 = ''1000''" by (subst dec.simps) (simp add: digit_char_def)
  then show ?thesis by (simp add: fmt03_def)
qed

lemma mint_past_999:
  assumes "list_session_ids d \<noteq> []" "session_ord (last (list_session_ids d)) = 999"
  shows "next_session_id d = ''chat_1000''"
    and "next_session_id (touch (session_file ''chat_1000'') d) = ''chat_1000''"
proof -
  show 1: "next_session_id d = ''chat_1000''"
    using assms by (simp add: next_session_id_fmt fmt03_1000)
  have "session_pattern (session_file ''chat_1000'') = None"
    by (simp add: session_pattern_def session_file_def)
  then have "list_session_ids (touch (session_file ''chat_1000'') d) = list_session_ids d"
    by (rule list_session_ids_unlisted)
  then have "next_session_id (touch (session_file ''chat_1000'') d) = next_session_id d"
    by (simp add: next_session_id_def)
  with 1 show "next_session_id (touch (session_file ''chat_1000'') d) = ''chat_1000''" by simp
qed


theorem id_reuse_counterexample:
  "map pane_id (panes (run_ops [(fw_ok, New_session)] one_chat)) = [''chat_001'', ''chat_002'']
   \<and> map pane_id (panes (run_ops [(fw_ok, New_session), (fw_ok, Delete_session ''chat_002'')]
        one_chat)) = [''chat_001'']
   \<and> map pane_id (panes (run_ops [(fw_ok, New_session), (fw_ok, Delete_session ''chat_002''),
        (fw_ok, New_session)] one_chat)) = [''chat_001'', ''chat_002'']
   \<and> path_exists ''chat_1000.jsonl'' [(''chat_999.jsonl'', []), (''chat_1000.jsonl'', [])]
   \<and> next_session_id [(''chat_999.jsonl'', []), (''chat_1000.jsonl'', [])] = ''chat_1000''"
  by code_simp

text \<open>
  C4 as the code has it. \<open>next_session_id\<close> keeps no record of the identifiers it has
  minted: it reads the identifiers that the history directory lists at the moment of the
  call (files \<open>chat_NNN.jsonl\<close> with exactly three digits) and mints the one whose number is
  one above the greatest listed number, or number 1 when none is listed. So the minted
  identifier is above, and different from, every listed one. While the greatest listed
  number is below 999 no file of the minted identifier exists, and creating that file and
  removing it again (what a new chat and its permanent deletion do to the directory)
  leaves the directory as it was, so the same identifier is minted a second time. With
  999 listed the minted identifier is \<open>chat_1000\<close>, which the directory never lists, so
  it is minted again after its file was created.
\<close>

theorem minted_id_from_directory:
  "session_ord (next_session_id d) =
       (if list_session_ids d = [] then 1 else session_ord (last (list_session_ids d)) + 1)
   \<and> (\<forall>x\<in>set (list_session_ids d). session_ord x < session_ord (next_session_id d))
   \<and> next_session_id d \<notin> set (list_session_ids d)
   \<and> (list_session_ids d = [] \<or> session_ord (last (list_session_ids d)) < 999 \<longrightarrow>
         \<not> path_exists (session_file (next_session_id d)) d
       \<and> os_remove (session_file (next_session_id d))
            (touch (session_file (next_session_id d)) d) = d
       \<and> next_session_id
            (os_remove (session_file (next_session_id d))
               (touch (session_file (next_session_id d)) d)) = next_session_id d)
   \<and> (list_session_ids d \<noteq> [] \<and> session_ord (last (list_session_ids d)) = 999 \<longrightarrow>
         next_session_id d = ''chat_1000''
       \<and> next_session_id (touch (session_file ''chat_1000'') d) = ''chat_1000'')"
proof -
  have lt: "session_ord x < session_ord (next_session_id d)" if "x \<in> set (list_session_ids d)"
    for x
  proof -
    from that have "list_session_ids d \<noteq> []" by auto
    with listed_id_ord [OF that] show ?thesis by (simp add: session_ord_next)
  qed
  show ?thesis
  proof (intro conjI impI ballI)
    show "session_ord (next_session_id d) =
       (if list_session_ids d = [] then 1 else session_ord (last (list_session_ids d)) + 1)"
      by (rule session_ord_next)
    show "next_session_id d \<notin> set (list_session_ids d)" by (rule next_not_listed)
    fix x assume "x \<in> set (list_session_ids d)"
    then show "session_ord x < session_ord (next_session_id d)" by (rule lt)
  next
    assume h: "list_session_ids d = [] \<or> session_ord (last (list_session_ids d)) < 999"
    then show "\<not> path_exists (session_file (next_session_id d)) d"
      by (rule minted_file_absent)
    from h show e: "os_remove (session_file (next_session_id d))
            (touch (session_file (next_session_id d)) d) = d"
      by (rule mint_delete_mint)
    show "next_session_id
            (os_remove (session_file (next_session_id d))
               (touch (session_file (next_session_id d)) d)) = next_session_id d"
      by (simp only: e)
  next
    assume h: "list_session_ids d \<noteq> [] \<and> session_ord (last (list_session_ids d)) = 999"
    then have h1: "list_session_ids d \<noteq> []" and h2: "session_ord (last (list_session_ids d)) = 999"
      by simp_all
    show "next_session_id d = ''chat_1000''"
      by (rule mint_past_999(1) [OF h1 h2])
    show "next_session_id (touch (session_file ''chat_1000'') d) = ''chat_1000''"
      by (rule mint_past_999(2) [OF h1 h2])
  qed
qed

theorem minted_id_from_directory_witness:
  "next_session_id [(''chat_007.jsonl'', []), (''chat_002.jsonl'', []), (''notes.txt'', [])]
     = ''chat_008''
   \<and> session_ord ''chat_002'' < session_ord ''chat_008''
   \<and> session_ord ''chat_007'' < session_ord ''chat_008''
   \<and> next_session_id
        (os_remove ''chat_008.jsonl''
           (touch ''chat_008.jsonl''
              [(''chat_007.jsonl'', []), (''chat_002.jsonl'', []), (''notes.txt'', [])]))
       = ''chat_008''
   \<and> next_session_id (touch ''chat_1000.jsonl'' [(''chat_999.jsonl'', [])]) = ''chat_1000''"
proof -
  let ?d = "[(''chat_007.jsonl'', []), (''chat_002.jsonl'', []), (''notes.txt'', [])]"
  let ?e = "[(''chat_999.jsonl'', [])]"
  have l: "list_session_ids ?d = [''chat_002'', ''chat_007'']" by code_simp
  have n: "next_session_id ?d = ''chat_008''" by code_simp
  have o: "session_ord ''chat_007'' = 7" by code_simp
  have m: "list_session_ids ?e = [''chat_999'']" "session_ord ''chat_999'' = 999" by code_simp+
  have f: "session_file ''chat_008'' = ''chat_008.jsonl''"
    "session_file ''chat_1000'' = ''chat_1000.jsonl''"
    by (simp_all add: session_file_def)
  show ?thesis
    using minted_id_from_directory [of ?d] minted_id_from_directory [of ?e]
    by (simp add: l n o m f)
qed

subsection \<open>The widget counter\<close>

text \<open>
  Every bubble of a registered view carries an identifier below the counter: this holds
  once \<open>on_mount\<close> has run, whatever state it started from, and every handler keeps it
  (new tab, close, permanent delete, rename, the tree's selection handler, both halves of
  \<open>model_response\<close>). So a request in flight never shares its placeholder's identifier
  with a bubble mounted later.
\<close>

lemma fresh_ok_iff:
  "fresh_ok s \<longleftrightarrow> (\<forall>k v b. (k, v) \<in> set (views s) \<longrightarrow> b \<in> set (bubbles v) \<longrightarrow> wid b < fresh s)"
  by (auto simp: fresh_ok_def list_all_iff)

lemma fresh_ok_other [simp]:
  "fresh_ok (s\<lparr>panes := a\<rparr>) = fresh_ok s"
  "fresh_ok (s\<lparr>active := b\<rparr>) = fresh_ok s"
  "fresh_ok (s\<lparr>tree := c\<rparr>) = fresh_ok s"
  "fresh_ok (s\<lparr>tree_nodes := d\<rparr>) = fresh_ok s"
  "fresh_ok (s\<lparr>cursor := e\<rparr>) = fresh_ok s"
  "fresh_ok (s\<lparr>last_tree_sid := f\<rparr>) = fresh_ok s"
  "fresh_ok (s\<lparr>syncing_ui := g\<rparr>) = fresh_ok s"
  "fresh_ok (s\<lparr>input := h\<rparr>) = fresh_ok s"
  "fresh_ok (s\<lparr>files := i\<rparr>) = fresh_ok s"
  by (simp_all add: fresh_ok_def)

lemma set_update_subset: "set (AList.update k v al) \<subseteq> insert (k, v) (set al)"
  by (induction al) auto

lemma set_delete_subset: "set (AList.delete k al) \<subseteq> set al"
  by (induction al) auto

lemma set_map_entry:
  "(k', v') \<in> set (AList.map_entry k f al) \<Longrightarrow>
     (k', v') \<in> set al \<or> (\<exists>v. (k, v) \<in> set al \<and> k' = k \<and> v' = f v)"
  by (induction al) (auto split: if_splits)

lemma in_set_update:
  "(k', v') \<in> set (AList.update k v al) \<Longrightarrow> (k', v') = (k, v) \<or> (k', v') \<in> set al"
  using set_update_subset [of k v al] by auto

lemma in_set_delete: "(k', v') \<in> set (AList.delete k al) \<Longrightarrow> (k', v') \<in> set al"
  using set_delete_subset [of k al] by auto

lemma fresh_ok_update_empty:
  "fresh_ok s \<Longrightarrow> fresh_ok (s\<lparr>views := AList.update k \<lparr>mounted = m, bubbles = []\<rparr> (views s)\<rparr>)"
  by (fastforce simp: fresh_ok_iff dest!: in_set_update)

lemma fresh_ok_delete:
  "fresh_ok s \<Longrightarrow> fresh_ok (s\<lparr>views := AList.delete k (views s)\<rparr>)"
  by (fastforce simp: fresh_ok_iff dest!: in_set_delete)

lemma fresh_ok_no_views [simp]: "fresh_ok (s\<lparr>views := []\<rparr>)"
  by (simp add: fresh_ok_def)

lemma fresh_ok_Suc: "fresh_ok s \<Longrightarrow> fresh_ok (s\<lparr>fresh := Suc (fresh s)\<rparr>)"
  by (fastforce simp: fresh_ok_iff)

lemma fresh_ok_mount:
  "fresh_ok s \<Longrightarrow>
     fresh_ok (s\<lparr>views := AList.map_entry sid
                    (\<lambda>v. v\<lparr>bubbles := bubbles v @ [\<lparr>wid = fresh s, brole = r, btext = c\<rparr>]\<rparr>)
                    (views s),
                 fresh := Suc (fresh s)\<rparr>)"
  by (fastforce simp: fresh_ok_iff dest!: set_map_entry)

lemma fresh_ok_current_view:
  "fresh_ok s \<Longrightarrow> fresh_ok (snd (current_view x s))"
  by (simp add: current_view_def fresh_ok_update_empty split: option.splits)

lemma fresh_ok_add_message: "fresh_ok s \<Longrightarrow> fresh_ok (snd (add_message r c x s))"
  by (simp add: add_message_def snd_then_do mount_bubble_def fresh_ok_mount
      fresh_ok_current_view split: outcome.splits)

lemma preserves_fresh_ok_add_message: "preserves fresh_ok (add_message r c x)"
  by (simp add: preserves_def fresh_ok_add_message)

lemma preserves_fresh_ok_load_lines: "preserves fresh_ok (load_lines sid ls)"
proof (induction sid ls rule: load_lines.induct)
  case (3 session_id t r c ls)
  show ?case
    unfolding load_lines.simps by (intro preserves_then_do preserves_fresh_ok_add_message 3)
qed simp_all

lemma fresh_ok_load_history: "fresh_ok s \<Longrightarrow> fresh_ok (snd (load_history sid s))"
proof -
  have "preserves fresh_ok (try_except (load_lines sid ls)
      (\<lambda>e. then_do (add_message ''system'' (load_failed_text sid e) (Some sid)) (\<lambda>_. ret ())))"
    for ls
    by (intro preserves_try_except preserves_then_do preserves_fresh_ok_load_lines
        preserves_fresh_ok_add_message preserves_ret)
  then show "fresh_ok s \<Longrightarrow> fresh_ok (snd (load_history sid s))"
    by (auto simp: preserves_def load_history_def split: option.splits)
qed

lemma fresh_ok_system_bubble: "fresh_ok s \<Longrightarrow> fresh_ok (snd (system_bubble sid t s))"
  by (simp add: system_bubble_def fresh_ok_add_message)

lemma fresh_ok_create_tab_for_session:
  "fresh_ok s \<Longrightarrow> fresh_ok (snd (create_tab_for_session sid sw ld w t s))"
proof -
  assume ok: "fresh_ok s"
  have "fresh_ok (u\<lparr>views := AList.update sid \<lparr>mounted = True, bubbles = []\<rparr> (views s)\<rparr>)"
    if "views u = views s" "fresh u = fresh s" for u
    using ok that fresh_ok_update_empty [of s sid True]
    by (simp add: fresh_ok_def)
  then show ?thesis
    by (simp add: create_tab_for_session_def fresh_ok_load_history fresh_ok_add_message)
qed

lemma fresh_ok_add_tree_node:
  "fresh_ok s \<Longrightarrow> fresh_ok (add_tree_node_for_session a b s)"
  using fresh_ok_Suc [of s] by (simp add: add_tree_node_for_session_def fresh_ok_def)

lemma fresh_ok_select_tree_node:
  "fresh_ok s \<Longrightarrow> fresh_ok (snd (select_tree_node fw sid s))"
  by (rule preservesD [OF preserves_select_tree_node]) simp_all

lemma fresh_ok_set_syncing [simp]: "fresh_ok (set_syncing b s) = fresh_ok s"
  by (simp add: set_syncing_def)

lemma fresh_ok_new_chat: "fresh_ok s \<Longrightarrow> fresh_ok (snd (new_chat fw s))"
  by (simp add: new_chat_def Let_def snd_then_do fresh_ok_create_tab_for_session
      fresh_ok_add_tree_node fresh_ok_select_tree_node split: outcome.splits)

lemma fresh_ok_remove_tree_node: "fresh_ok s \<Longrightarrow> fresh_ok (snd (remove_tree_node fw sid s))"
  by (simp add: remove_tree_node_def snd_then_do tree_select_node_def
      split: outcome.splits list.splits option.splits)

lemma fresh_ok_close_tab_only: "fresh_ok s \<Longrightarrow> fresh_ok (snd (close_tab_only fw sid s))"
proof (cases "length (panes s) \<le> 1")
  case True
  then show "fresh_ok s \<Longrightarrow> ?thesis" by (simp add: close_tab_only_def fresh_ok_system_bubble)
next
  case False
  assume ok: "fresh_ok s"
  have d: "fresh_ok (u\<lparr>views := AList.delete sid (views s)\<rparr>)"
    if "views u = views s" "fresh u = fresh s" for u
    using ok that fresh_ok_delete [of s sid] by (simp add: fresh_ok_def)
  from False show ?thesis
    by (simp add: close_tab_only_def Let_def snd_then_do d fresh_ok_select_tree_node
        split: outcome.splits list.splits)
qed

lemma fresh_ok_permanently_delete_chat:
  "fresh_ok s \<Longrightarrow> fresh_ok (snd (permanently_delete_chat fw sid s))"
proof -
  have A: "triple fresh_ok (\<lambda>s. if length (panes s) \<le> 1 then new_chat fw s else ret () s)
             (\<lambda>_. fresh_ok) fresh_ok"
    by (rule triple_from_snd) (simp add: fresh_ok_new_chat)
  have B: "triple fresh_ok (close_tab_only fw sid) (\<lambda>_. fresh_ok) fresh_ok"
    by (rule triple_from_snd) (rule fresh_ok_close_tab_only)
  have C: "triple fresh_ok (\<lambda>s. let path = session_file sid in
             if path_exists path (files s) then
               (if os_remove_raises fw path then
                  (case active s of
                     None \<Rightarrow> ret () s
                   | Some a \<Rightarrow> if a \<noteq> [] then system_bubble a (warn_delete_text path) s
                               else ret () s)
                else modify (\<lambda>s. s\<lparr>files := os_remove path (files s)\<rparr>) s)
             else ret () s) (\<lambda>_. fresh_ok) fresh_ok"
    by (rule triple_from_snd) (simp add: Let_def fresh_ok_system_bubble split: option.splits)
  have D: "triple fresh_ok (remove_tree_node fw sid) (\<lambda>_. fresh_ok) fresh_ok"
    by (rule triple_from_snd) (rule fresh_ok_remove_tree_node)
  have "triple fresh_ok (permanently_delete_chat fw sid) (\<lambda>_. fresh_ok) fresh_ok"
    unfolding permanently_delete_chat_def
    by (intro triple_block_Cons [OF A] triple_block_Cons [OF B]
        triple_block_Cons [OF C] triple_block_Cons [OF D] triple_block_Nil)
  then show "fresh_ok s \<Longrightarrow> ?thesis" by (rule triple_snd)
qed

lemma preserves_fresh_okI:
  "(\<And>s. fresh_ok s \<Longrightarrow> fresh_ok (snd (m s))) \<Longrightarrow> preserves fresh_ok m"
  by (simp add: preserves_def)

lemma fresh_ok_action_close_tab: "fresh_ok s \<Longrightarrow> fresh_ok (snd (action_close_tab fw s))"
  by (simp add: action_close_tab_def fresh_ok_permanently_delete_chat split: option.splits)

lemma fresh_ok_run_op: "fresh_ok s \<Longrightarrow> fresh_ok (snd (run_op fw op s))"
  by (cases op)
     (simp_all add: run_op_def action_new_tab_def fresh_ok_new_chat fresh_ok_close_tab_only
        fresh_ok_permanently_delete_chat)

lemma fresh_ok_run_ops: "fresh_ok s \<Longrightarrow> fresh_ok (run_ops ops s)"
  by (induction ops s rule: run_ops.induct) (simp_all add: fresh_ok_run_op)

lemma preserves_fresh_ok_relabel:
  assumes "\<And>n. preserves fresh_ok (g n)"
  shows "preserves fresh_ok (try_except
             (block [set_pane_title fw sid t,
                     (\<lambda>s. case map_of (tree_nodes s) sid of
                             None \<Rightarrow> ret () s | Some n \<Rightarrow> g n s)])
             (\<lambda>e. system_bubble sid u))"
proof -
  have 1: "preserves fresh_ok (set_pane_title fw sid t)"
    by (simp add: preserves_def set_pane_title_def action_defs)
  have 2: "preserves fresh_ok (\<lambda>s. case map_of (tree_nodes s) sid of
             None \<Rightarrow> ret () s | Some n \<Rightarrow> g n s)"
    using assms by (simp add: preserves_def split: option.splits)
  have 3: "preserves fresh_ok (system_bubble sid u)"
    by (rule preserves_fresh_okI) (rule fresh_ok_system_bubble)
  show ?thesis
    by (intro preserves_try_except preserves_block_Cons preserves_block_Nil 1 2 3)
qed

lemma preserves_fresh_ok_set_label: "preserves fresh_ok (set_label fw n t)"
  by (simp add: preserves_def set_label_def action_defs)

lemma preserves_fresh_ok_relabel_pane:
  assumes "\<And>n p. preserves fresh_ok (g p n)"
  shows "preserves fresh_ok
           (\<lambda>s. case get_pane sid s of
                   None \<Rightarrow> ret () s
                 | Some p \<Rightarrow>
                     try_except
                       (block [set_pane_title fw sid (t p),
                               (\<lambda>s. case map_of (tree_nodes s) sid of
                                       None \<Rightarrow> ret () s | Some n \<Rightarrow> g p n s)])
                       (\<lambda>e. system_bubble sid u) s)"
  unfolding preserves_def
proof (intro allI impI)
  fix s assume ok: "fresh_ok s"
  show "fresh_ok (snd (case get_pane sid s of
                   None \<Rightarrow> ret () s
                 | Some p \<Rightarrow>
                     try_except
                       (block [set_pane_title fw sid (t p),
                               (\<lambda>s. case map_of (tree_nodes s) sid of
                                       None \<Rightarrow> ret () s | Some n \<Rightarrow> g p n s)])
                       (\<lambda>e. system_bubble sid u) s))"
  proof (cases "get_pane sid s")
    case None
    with ok show ?thesis by simp
  next
    case (Some p)
    show ?thesis
      unfolding Some option.case
      by (rule preservesD [OF preserves_fresh_ok_relabel [where g = "g p"] ok]) (rule assms)
  qed
qed

lemma fresh_ok_action_rename_tab: "fresh_ok s \<Longrightarrow> fresh_ok (snd (action_rename_tab fw s))"
proof -
  assume ok: "fresh_ok s"
  have 1: "preserves fresh_ok
      (block [modify (\<lambda>s. if c then s\<lparr>input := []\<rparr> else s),
              (\<lambda>s. case get_pane sid s of
                      None \<Rightarrow> ret () s
                    | Some p \<Rightarrow>
                        try_except
                          (block
                            [set_pane_title fw sid t,
                             (\<lambda>s. case map_of (tree_nodes s) sid of
                                     None \<Rightarrow> ret () s
                                   | Some n \<Rightarrow> set_label fw n t s)])
                          (\<lambda>e. system_bubble sid (rename_text t)) s)])" for c sid t
    by (intro preserves_block_Cons preserves_block_Nil preserves_modify
        preserves_fresh_ok_relabel_pane [where t = "\<lambda>_. t" and g = "\<lambda>_ n. set_label fw n t"]
        preserves_fresh_ok_set_label) simp
  show ?thesis
  proof (cases "active s")
    case None
    with ok show ?thesis by (simp add: action_rename_tab_def)
  next
    case (Some sid)
    show ?thesis
    proof (cases "sid = []")
      case True
      with Some ok show ?thesis by (simp add: action_rename_tab_def)
    next
      case False
      let ?t = "if strip (input s) \<noteq> [] then strip (input s) else ''Chat '' @ strftime_now fw"
      from Some False have "action_rename_tab fw s =
        block [modify (\<lambda>s'. if strip (input s) \<noteq> [] then s'\<lparr>input := []\<rparr> else s'),
           (\<lambda>s. case get_pane sid s of
           None \<Rightarrow> ret () s
         | Some p \<Rightarrow> try_except
           (block [set_pane_title fw sid ?t,
                   (\<lambda>s. case map_of (tree_nodes s) sid of
                           None \<Rightarrow> ret () s | Some n \<Rightarrow> set_label fw n ?t s)])
           (\<lambda>e. system_bubble sid (rename_text ?t)) s)] s"
        by (simp add: action_rename_tab_def Let_def)
      then show ?thesis
        using preservesD [OF 1 [where sid = sid and t = ?t and c = "strip (input s) \<noteq> []"] ok]
        by simp
    qed
  qed
qed

lemma fresh_ok_rename_command: "fresh_ok s \<Longrightarrow> fresh_ok (snd (rename_command fw sid p s))"
proof -
  have 0: "preserves fresh_ok (\<lambda>s. if c then set_label fw n t s else ret () s)" for n c t
    by (simp add: preserves_def set_label_def action_defs)
  have "preserves fresh_ok (rename_command fw sid p)"
    unfolding rename_command_def Let_def
    by (intro preserves_block_Cons preserves_block_Nil preserves_modify
        preserves_fresh_ok_relabel_pane
          [where g = "\<lambda>_ n s. if c then set_label fw n t s else ret () s" for c t] 0)
      (simp add: clear_input_def)
  then show "fresh_ok s \<Longrightarrow> ?thesis" by (rule preservesD)
qed

lemma fresh_ok_on_tree_node_selected:
  "fresh_ok s \<Longrightarrow> fresh_ok (snd (on_tree_node_selected ev s))"
  by (simp add: on_tree_node_selected_def Let_def fresh_ok_create_tab_for_session)

lemma fresh_ok_remove_widget: "fresh_ok s \<Longrightarrow> fresh_ok (remove_widget w s)"
  by (fastforce simp: fresh_ok_iff remove_widget_def)

lemma fresh_ok_save_message [simp]:
  "fresh_ok (snd (save_message fw r c sid s)) = fresh_ok s"
  by (simp add: save_message_def)

lemma fresh_ok_model_response_complete:
  "fresh_ok s \<Longrightarrow> fresh_ok (snd (model_response_complete fw rq s))"
  by (simp add: model_response_complete_def Let_def snd_then_do fresh_ok_remove_widget
      fresh_ok_add_message split: outcome.splits)

lemma fresh_ok_model_response_begin:
  "fresh_ok s \<Longrightarrow> fresh_ok (snd (model_response_begin fw s))"
  by (simp add: model_response_begin_def Let_def snd_then_do clear_input_def
      fresh_ok_rename_command action_new_tab_def fresh_ok_new_chat fresh_ok_action_close_tab
      fresh_ok_permanently_delete_chat fresh_ok_add_message
      split: option.splits outcome.splits)

lemma fresh_ok_model_response: "fresh_ok s \<Longrightarrow> fresh_ok (snd (model_response fw s))"
  by (simp add: model_response_def snd_then_do fresh_ok_model_response_begin
      fresh_ok_model_response_complete split: outcome.splits option.splits)

lemma preserves_fresh_ok_mount_sessions: "preserves fresh_ok (mount_sessions ids)"
proof (induction ids)
  case Nil
  show ?case by simp
next
  case (Cons sid rest)
  show ?case
    unfolding mount_sessions.simps
    by (intro preserves_block_Cons preserves_block_Nil preserves_modify Cons
        preserves_fresh_okI fresh_ok_create_tab_for_session fresh_ok_add_tree_node)
qed

lemma fresh_ok_on_mount: "fresh_ok (snd (on_mount fw s))"
proof -
  define first_chat where "first_chat sid =
      block [modify (\<lambda>s. s\<lparr>files := touch (session_file sid) (files s)\<rparr>),
             create_tab_for_session sid True False True None,
             modify (add_tree_node_for_session sid sid),
             select_tree_node fw sid]" for sid
  define body where "body existing =
      try_finally
       (if existing \<noteq> [] then
          block [mount_sessions existing,
                 modify (\<lambda>s. s\<lparr>active := Some (last existing)\<rparr>),
                 select_tree_node fw (last existing)]
        else (\<lambda>s. first_chat (next_session_id (files s)) s))
       (set_syncing False)" for existing
  have 0: "fresh_ok (s\<lparr>views := [], tree_nodes := []\<rparr>)"
    by (simp add: fresh_ok_def)
  have a: "preserves fresh_ok
              (block [mount_sessions existing,
                 modify (\<lambda>s. s\<lparr>active := Some (last existing)\<rparr>),
                 select_tree_node fw (last existing)])" for existing
    by (intro preserves_block_Cons preserves_block_Nil preserves_modify
        preserves_fresh_ok_mount_sessions preserves_fresh_okI fresh_ok_select_tree_node)
      simp_all
  have b: "preserves fresh_ok (first_chat sid)" for sid
    unfolding first_chat_def
    by (intro preserves_block_Cons preserves_block_Nil preserves_modify
        preserves_fresh_okI fresh_ok_select_tree_node fresh_ok_create_tab_for_session
        fresh_ok_add_tree_node)
      simp_all
  have c: "preserves fresh_ok (\<lambda>s. first_chat (next_session_id (files s)) s)"
    using b by (simp add: preserves_def)
  have 1: "preserves fresh_ok (body existing)" for existing
    unfolding body_def
    by (rule preserves_try_finally) (simp_all add: a c del: block.simps)
  have 2: "preserves fresh_ok (block [modify (set_syncing True), body existing])" for existing
    by (intro preserves_block_Cons preserves_block_Nil preserves_modify 1) simp
  have "on_mount fw s =
          block [modify (set_syncing True), body (list_session_ids (files s))]
            (s\<lparr>views := [], tree_nodes := []\<rparr>)"
    by (simp add: on_mount_def Let_def body_def first_chat_def)
  then show ?thesis
    using preservesD [OF 2 0] by simp
qed

end
